theory Spec2Isabelle
  imports Main "HOL-Library.Word"
begin

unbundle bit_operations_syntax

section \<open>Machine types, memory and the build\<close>

text \<open>
  The library targets a 32-bit microcontroller: \<open>size_t\<close>, \<open>unsigned\<close>, \<open>uint32_t\<close> and
  object addresses are 32-bit words (the copy constructor stores an address in the
  \<open>uint32_t\<close> length field), \<open>int\<close> is their two's complement reading.
\<close>

type_synonym u8 = "8 word"
type_synonym u32 = "32 word"
type_synonym addr = "32 word"

text \<open>
  Memory as the code reads it: the \<open>uint32_t\<close> length field of the object at an address
  (\<open>flashLength_\<close> of \<open>ObjectBase\<close>, \<open>flashLength\<close> of \<open>FlashString\<close>), and the bytes
  at an address (the trailing data, read through the cache).
\<close>

record memory =
  word_at :: "addr \<Rightarrow> u32"
  byte_at :: "addr \<Rightarrow> u8"

text \<open>
  What the build and the platform fix. \<open>ARCH_HOST\<close> and \<open>NDEBUG\<close> are the two
  preprocessor symbols \<open>getObjectPtr\<close> depends on (\<open>NDEBUG\<close> compiles \<open>assert\<close> out).
  \<open>copyBit\<close> (its value is in ObjectBase.hpp), \<open>isFlashPtr\<close>, \<open>flashmem_get_address\<close>,
  the content of the flash device, and the backend's two load primitives
  \<open>pgm_read_byte\<close> (one byte, a \<open>uint8_t\<close>) and \<open>pgm_read_word\<close> (a half-word, a
  \<open>uint16_t\<close>) are not defined by the files at hand and are parameters; \<open>empty_obj\<close> is
  the address of the static object \<open>ObjectBase::empty_\<close> (a name cannot end in an
  underscore here).
\<close>

record platform =
  ARCH_HOST :: bool
  NDEBUG :: bool
  copyBit :: u32
  empty_obj :: addr
  isFlashPtr :: "addr \<Rightarrow> bool"
  flashmem_get_address :: "addr \<Rightarrow> u32"
  flash_at :: "u32 \<Rightarrow> u8"
  pgm_read_byte :: "memory \<Rightarrow> addr \<Rightarrow> 8 word"
  pgm_read_word :: "memory \<Rightarrow> addr \<Rightarrow> 16 word"

text \<open>
  How a call can end without a value: a failed \<open>assert\<close> stops the program. The other
  three are what the compiler reports when \<open>readValue\<close> is instantiated for an element
  type: no viable overload, more than one, or a \<open>static_cast<T>\<close> from an integer that
  the type does not have.
\<close>

datatype error = AssertionFailed | NoMatchingOverload | AmbiguousOverload | InvalidStaticCast

section \<open>ObjectBase: the sequence handle\<close>

text \<open>
  Modelled from the spec: \<open>ObjectBase::isCopy\<close> is declared in ObjectBase.hpp, which is
  not among the files; "true iff this in-memory instance carries the redirect tag".
\<close>

definition isCopy :: "platform \<Rightarrow> memory \<Rightarrow> addr \<Rightarrow> bool" where
  "isCopy pf m this = (word_at m this AND copyBit pf \<noteq> 0)"

text \<open>
  \<open>ObjectBase::getObjectPtr\<close> (ObjectBase.cpp). The branches are in the source's order;
  on a target build the \<open>assert\<close> comes first and stops the program unless \<open>NDEBUG\<close>
  is defined.
\<close>

definition getObjectPtr :: "platform \<Rightarrow> memory \<Rightarrow> addr \<Rightarrow> error + addr" where
  "getObjectPtr pf m this =
     (if isCopy pf m this then Inr (word_at m this AND NOT (copyBit pf))
      else if word_at m this = 0 then Inr (empty_obj pf)
      else if ARCH_HOST pf then Inr this
      else if \<not> NDEBUG pf \<and> \<not> isFlashPtr pf this then Inl AssertionFailed
      else if isFlashPtr pf this then Inr this
      else Inr (empty_obj pf))"

text \<open>
  Modelled from the spec: \<open>getObjectLength\<close> and \<open>getObjectData\<close> are declared in
  ObjectBase.hpp, which is not among the files. The byte count of a handle is its length
  field; its data pointer is "address of its length field + size of that field".
\<close>

definition getObjectLength :: "memory \<Rightarrow> addr \<Rightarrow> u32" where
  "getObjectLength m ptr = word_at m ptr"

definition getObjectData :: "addr \<Rightarrow> addr" where
  "getObjectData ptr = ptr + 4"

text \<open>
  A buffer in RAM is the list of its bytes; copying \<open>n\<close> bytes into it replaces its first
  \<open>n\<close> bytes (callers pass a count that fits the buffer).
\<close>

definition store_buf :: "u8 list \<Rightarrow> u8 list \<Rightarrow> u8 list" where
  "store_buf buffer bs = bs @ drop (length bs) buffer"

text \<open>The \<open>n\<close> bytes a byte-addressed source holds from \<open>src\<close> on.\<close>

definition load_bytes :: "(addr \<Rightarrow> u8) \<Rightarrow> addr \<Rightarrow> nat \<Rightarrow> u8 list" where
  "load_bytes f src n = map (\<lambda>i. f (src + of_nat i)) [0..<n]"

text \<open>
  Modelled from the spec: the device-read backend \<open>flashmem_read\<close> is an external
  primitive, "readDevice(buffer, deviceAddress, count) -> bytes read": it copies
  \<open>count\<close> bytes of the device from \<open>deviceAddress\<close> on and returns \<open>count\<close>.
\<close>

definition flashmem_read :: "platform \<Rightarrow> u8 list \<Rightarrow> u32 \<Rightarrow> u32 \<Rightarrow> u32 \<times> u8 list" where
  "flashmem_read pf buffer a count =
     (count, store_buf buffer (load_bytes (flash_at pf) a (unat count)))"

text \<open>
  Modelled from the spec: the cached-read backend \<open>memcpy_P\<close>, "copy(dst, srcAddress,
  count)", an ordinary memory copy.
\<close>

definition memcpy_P :: "memory \<Rightarrow> u8 list \<Rightarrow> addr \<Rightarrow> u32 \<Rightarrow> u8 list" where
  "memcpy_P m buffer src count = store_buf buffer (load_bytes (byte_at m) src (unat count))"

text \<open>\<open>ObjectBase::readFlash\<close> (ObjectBase.cpp): the result and the buffer afterwards.\<close>

definition readFlash ::
  "platform \<Rightarrow> memory \<Rightarrow> addr \<Rightarrow> u32 \<Rightarrow> u8 list \<Rightarrow> u32 \<Rightarrow> error + (u32 \<times> u8 list)" where
  "readFlash pf m this offset buffer count =
     (case getObjectPtr pf m this of
        Inl e \<Rightarrow> Inl e
      | Inr ptr \<Rightarrow>
          (let len = getObjectLength m ptr in
           if offset \<ge> len then Inr (0, buffer)
           else
             (let count' = min (len - offset) count;
                  a = flashmem_get_address pf (getObjectData ptr + offset)
              in Inr (flashmem_read pf buffer a count'))))"

text \<open>
  Modelled from the spec: \<open>ObjectBase::length\<close>, \<open>data\<close> and \<open>read\<close> are declared in
  ObjectBase.hpp, which is not among the files. \<open>length\<close> "returns the resolved
  handle's byte count", \<open>data\<close> is the "address of the first data byte of the resolved
  handle", and \<open>read\<close> has the contract of \<open>readFlash\<close> with the cached-access backend:
  it "clamps count to max(0, length() - offset); returns 0 when offset >= length()".
\<close>

definition ObjectBase_length :: "platform \<Rightarrow> memory \<Rightarrow> addr \<Rightarrow> error + u32" where
  "ObjectBase_length pf m this =
     (case getObjectPtr pf m this of
        Inl e \<Rightarrow> Inl e
      | Inr ptr \<Rightarrow> Inr (getObjectLength m ptr))"

definition ObjectBase_data :: "platform \<Rightarrow> memory \<Rightarrow> addr \<Rightarrow> error + addr" where
  "ObjectBase_data pf m this =
     (case getObjectPtr pf m this of
        Inl e \<Rightarrow> Inl e
      | Inr ptr \<Rightarrow> Inr (getObjectData ptr))"

definition ObjectBase_read ::
  "platform \<Rightarrow> memory \<Rightarrow> addr \<Rightarrow> u32 \<Rightarrow> u8 list \<Rightarrow> u32 \<Rightarrow> error + (u32 \<times> u8 list)" where
  "ObjectBase_read pf m this offset buffer count =
     (case getObjectPtr pf m this of
        Inl e \<Rightarrow> Inl e
      | Inr ptr \<Rightarrow>
          (let len = getObjectLength m ptr in
           if offset \<ge> len then Inr (0, buffer)
           else
             (let count' = min (len - offset) count
              in Inr (count', memcpy_P m buffer (getObjectData ptr + offset) count'))))"

text \<open>
  Modelled from the spec: \<open>ObjectBase::copy\<close> is declared in ObjectBase.hpp, which is not
  among the files: it "sets the tag bit and stores the address of the source handle as
  payload". The copy constructor of \<open>Object\<close> (Object.hpp) calls it on the new object
  \<open>this\<close>; the memory afterwards is returned.
\<close>

definition copy :: "platform \<Rightarrow> memory \<Rightarrow> addr \<Rightarrow> addr \<Rightarrow> memory" where
  "copy pf m this obj = m\<lparr>word_at := (word_at m)(this := obj OR copyBit pf)\<rparr>"

definition Object_copy :: "platform \<Rightarrow> memory \<Rightarrow> addr \<Rightarrow> addr \<Rightarrow> memory" where
  "Object_copy pf m this obj = copy pf m this obj"

text \<open>The bytes a handle stands for: \<open>length()\<close> bytes from \<open>data()\<close> on.\<close>

definition ObjectBase_content :: "platform \<Rightarrow> memory \<Rightarrow> addr \<Rightarrow> error + u8 list" where
  "ObjectBase_content pf m this =
     (case ObjectBase_length pf m this of
        Inl e \<Rightarrow> Inl e
      | Inr len \<Rightarrow>
          (case ObjectBase_data pf m this of
             Inl e \<Rightarrow> Inl e
           | Inr d \<Rightarrow> Inr (load_bytes (byte_at m) d (unat len))))"

section \<open>FlashString: the counted string of FlashString.h\<close>

text \<open>
  Modelled from the spec: \<open>ALIGNUP\<close> is a macro of the framework, not among the files.
  The comment of \<open>size()\<close> says its result is "always an integer multiple of 4 bytes":
  the argument rounded up to a multiple of 4 in 32-bit arithmetic, \<open>(n + 3) & ~3\<close>.
\<close>

definition ALIGNUP :: "u32 \<Rightarrow> u32" where
  "ALIGNUP n = (n + 3) AND NOT 3"

definition FlashString_length :: "memory \<Rightarrow> addr \<Rightarrow> u32" where
  "FlashString_length m this = word_at m this"

definition FlashString_size :: "memory \<Rightarrow> addr \<Rightarrow> u32" where
  "FlashString_size m this = ALIGNUP (word_at m this + 1)"

definition FlashString_data :: "addr \<Rightarrow> addr" where
  "FlashString_data this = this + 4"

definition FlashString_read :: "memory \<Rightarrow> addr \<Rightarrow> u32 \<Rightarrow> u8 list \<Rightarrow> u32 \<Rightarrow> u32 \<times> u8 list" where
  "FlashString_read m this offset buffer bytesToRead =
     (if offset \<ge> word_at m this then (0, buffer)
      else
        (let count = min (word_at m this - offset) bytesToRead
         in (count, memcpy_P m buffer (FlashString_data this + offset) count)))"

text \<open>
  The macro \<open>LOAD_FSTR(name, fstr)\<close>: a stack array \<open>name\<close> of \<open>size()\<close> bytes (its
  content before the copy is \<open>junk\<close>), \<open>length()\<close> bytes copied into it, and a NUL
  written at index \<open>length()\<close>. A write outside the array is \<open>None\<close>.
\<close>

definition LOAD_FSTR :: "memory \<Rightarrow> addr \<Rightarrow> (nat \<Rightarrow> u8) \<Rightarrow> u8 list option" where
  "LOAD_FSTR m fstr junk =
     (let name = map junk [0..<unat (FlashString_size m fstr)];
          len = FlashString_length m fstr
      in if unat len < length name
         then Some ((memcpy_P m name (FlashString_data fstr) len)[unat len := 0])
         else None)"

section \<open>Typed-read dispatch (Utility.hpp)\<close>

text \<open>
  Modelled from the spec: \<open>IS_ALIGNED\<close> is a macro of the framework, not among the
  files; a size "satisfies the backend's natural aligned-access width" when it is a
  multiple of the 32-bit word.
\<close>

definition IS_ALIGNED :: "u32 \<Rightarrow> bool" where
  "IS_ALIGNED x = (x AND 3 = 0)"

text \<open>
  \<open>readValue\<close> is three function templates, each enabled by a condition on
  \<open>sizeof(T)\<close>. The compiler keeps the enabled ones and needs exactly one.
\<close>

datatype strategy = PgmReadByte | PgmReadWord | Dereference

definition readValue_enabled :: "u32 \<Rightarrow> strategy list" where
  "readValue_enabled sz =
     (if sz = 1 then [PgmReadByte] else []) @
     (if sz = 2 then [PgmReadWord] else []) @
     (if IS_ALIGNED sz then [Dereference] else [])"

definition readValue_overload :: "u32 \<Rightarrow> error + strategy" where
  "readValue_overload sz =
     (case readValue_enabled sz of
        [] \<Rightarrow> Inl NoMatchingOverload
      | [s] \<Rightarrow> Inr s
      | _ \<Rightarrow> Inl AmbiguousOverload)"

text \<open>
  An element type: its size, the value its object representation (the bytes in memory)
  stands for, which is what \<open>*ptr\<close> yields, the conversion \<open>static_cast<T>\<close> from an
  integer value (\<open>None\<close> for a type that has none, a class type for example), and the
  value of \<open>ElementType{0}\<close>.
\<close>

record 'e element_type =
  sizeof_elem :: u32
  from_bytes :: "u8 list \<Rightarrow> 'e"
  static_cast :: "(int \<Rightarrow> 'e) option"
  zero_elem :: 'e

text \<open>
  Instantiating \<open>readValue\<close> for an element type happens when the program is built: it
  selects the overload and compiles its body, and gives either a build error or the
  function that runs. That function is the body of the selected overload:
  \<open>static_cast<T>(pgm_read_byte(ptr))\<close>, \<open>static_cast<T>(pgm_read_word(ptr))\<close>, or the
  dereference \<open>*ptr\<close>; it has no error of its own.
\<close>

definition readValue_instance ::
  "'e element_type \<Rightarrow> error + (platform \<Rightarrow> memory \<Rightarrow> addr \<Rightarrow> 'e)" where
  "readValue_instance et =
     (case readValue_overload (sizeof_elem et) of
        Inl e \<Rightarrow> Inl e
      | Inr PgmReadByte \<Rightarrow>
          (case static_cast et of
             None \<Rightarrow> Inl InvalidStaticCast
           | Some c \<Rightarrow> Inr (\<lambda>pf m ptr. c (uint (pgm_read_byte pf m ptr))))
      | Inr PgmReadWord \<Rightarrow>
          (case static_cast et of
             None \<Rightarrow> Inl InvalidStaticCast
           | Some c \<Rightarrow> Inr (\<lambda>pf m ptr. c (uint (pgm_read_word pf m ptr))))
      | Inr Dereference \<Rightarrow>
          Inr (\<lambda>pf m ptr. from_bytes et (load_bytes (byte_at m) ptr (unat (sizeof_elem et)))))"

definition readValue :: "platform \<Rightarrow> memory \<Rightarrow> 'e element_type \<Rightarrow> addr \<Rightarrow> error + 'e" where
  "readValue pf m et ptr =
     (case readValue_instance et of
        Inl e \<Rightarrow> Inl e
      | Inr run \<Rightarrow> Inr (run pf m ptr))"

section \<open>Object: the typed sequence (Object.hpp)\<close>

definition Object_length :: "platform \<Rightarrow> memory \<Rightarrow> 'e element_type \<Rightarrow> addr \<Rightarrow> error + u32" where
  "Object_length pf m et this =
     (case ObjectBase_length pf m this of
        Inl e \<Rightarrow> Inl e
      | Inr n \<Rightarrow> Inr (n div sizeof_elem et))"

definition Object_data :: "platform \<Rightarrow> memory \<Rightarrow> addr \<Rightarrow> error + addr" where
  "Object_data pf m this = ObjectBase_data pf m this"

text \<open>\<open>data() + index\<close> on an \<open>ElementType\<close> pointer advances by whole elements.\<close>

definition valueAt :: "platform \<Rightarrow> memory \<Rightarrow> 'e element_type \<Rightarrow> addr \<Rightarrow> u32 \<Rightarrow> error + 'e" where
  "valueAt pf m et this index =
     (case Object_length pf m et this of
        Inl e \<Rightarrow> Inl e
      | Inr len \<Rightarrow>
          if index < len then
            (case Object_data pf m this of
               Inl e \<Rightarrow> Inl e
             | Inr d \<Rightarrow> readValue pf m et (d + index * sizeof_elem et))
          else Inr (zero_elem et))"

text \<open>\<open>operator[]\<close>.\<close>

definition subscript :: "platform \<Rightarrow> memory \<Rightarrow> 'e element_type \<Rightarrow> addr \<Rightarrow> u32 \<Rightarrow> error + 'e" where
  "subscript pf m et this index = valueAt pf m et this index"

text \<open>
  \<open>indexOf\<close>: the loop over \<open>unsigned i\<close>, with \<open>eq\<close> for the \<open>==\<close> of \<open>ElementType\<close> and
  \<open>ValueType\<close>. \<open>return i\<close> converts the \<open>unsigned\<close> to the \<open>int\<close> result.
\<close>

function indexOf_loop ::
  "platform \<Rightarrow> memory \<Rightarrow> 'e element_type \<Rightarrow> addr \<Rightarrow> ('e \<Rightarrow> 'v \<Rightarrow> bool) \<Rightarrow> 'v \<Rightarrow> u32 \<Rightarrow> u32
   \<Rightarrow> error + int" where
  "indexOf_loop pf m et this eq v len i =
     (if i < len then
        (case valueAt pf m et this i of
           Inl e \<Rightarrow> Inl e
         | Inr x \<Rightarrow>
             if eq x v then Inr (sint i)
             else indexOf_loop pf m et this eq v len (i + 1))
      else Inr (- 1))"
  by pat_completeness auto
termination
proof (relation "measure (\<lambda>(pf, m, et, this, eq, v, len, i). unat len - unat i)")
  show "wf (measure (\<lambda>(pf, m, et, this, eq, v, len, i). unat len - unat i))"
    by simp
next
  fix pf :: platform and m :: memory and et :: "'e element_type" and this :: addr
    and eq :: "'e \<Rightarrow> 'v \<Rightarrow> bool" and v :: 'v and len i :: u32 and x :: 'e
  assume lt: "i < len"
  then have "unat i < unat len"
    by (simp add: word_less_nat_alt)
  moreover from lt have "unat (i + 1) = unat i + 1"
    using unsigned_less [of len, where 'a = nat]
    by (simp add: word_less_nat_alt unat_word_ariths)
  ultimately show "((pf, m, et, this, eq, v, len, i + 1), (pf, m, et, this, eq, v, len, i))
      \<in> measure (\<lambda>(pf, m, et, this, eq, v, len, i). unat len - unat i)"
    by simp
qed

definition indexOf ::
  "platform \<Rightarrow> memory \<Rightarrow> 'e element_type \<Rightarrow> addr \<Rightarrow> ('e \<Rightarrow> 'v \<Rightarrow> bool) \<Rightarrow> 'v \<Rightarrow> error + int" where
  "indexOf pf m et this eq v =
     (case Object_length pf m et this of
        Inl e \<Rightarrow> Inl e
      | Inr len \<Rightarrow> indexOf_loop pf m et this eq v len 0)"

definition Object_read ::
  "platform \<Rightarrow> memory \<Rightarrow> 'e element_type \<Rightarrow> addr \<Rightarrow> u32 \<Rightarrow> u8 list \<Rightarrow> u32
   \<Rightarrow> error + (u32 \<times> u8 list)" where
  "Object_read pf m et this index buffer count =
     (let offset = index * sizeof_elem et;
          count' = count * sizeof_elem et
      in case ObjectBase_read pf m this offset buffer count' of
           Inl e \<Rightarrow> Inl e
         | Inr (n, buffer') \<Rightarrow> Inr (n div sizeof_elem et, buffer'))"

definition Object_readFlash ::
  "platform \<Rightarrow> memory \<Rightarrow> 'e element_type \<Rightarrow> addr \<Rightarrow> u32 \<Rightarrow> u8 list \<Rightarrow> u32
   \<Rightarrow> error + (u32 \<times> u8 list)" where
  "Object_readFlash pf m et this index buffer count =
     (let offset = index * sizeof_elem et;
          count' = count * sizeof_elem et
      in case readFlash pf m this offset buffer count' of
           Inl e \<Rightarrow> Inl e
         | Inr (n, buffer') \<Rightarrow> Inr (n div sizeof_elem et, buffer'))"

subsection \<open>Iterators\<close>

text \<open>
  Modelled from the spec: \<open>ObjectIterator\<close> is defined in ObjectIterator.hpp, which is not
  among the files. An iterator is an "(owning typed-sequence reference, integer
  position) pair"; two iterators "compare equal iff they reference the same sequence and
  position". \<open>as<ObjectType>()\<close> (ObjectBase.hpp) is a cast of \<open>this\<close>.
\<close>

record iterator =
  it_object :: addr
  it_index :: u32

definition Iterator :: "addr \<Rightarrow> u32 \<Rightarrow> iterator" where
  "Iterator obj index = \<lparr>it_object = obj, it_index = index\<rparr>"

definition iterator_eq :: "iterator \<Rightarrow> iterator \<Rightarrow> bool" where
  "iterator_eq a b = (it_object a = it_object b \<and> it_index a = it_index b)"

definition Object_begin :: "addr \<Rightarrow> iterator" where
  "Object_begin this = Iterator this 0"

definition Object_end :: "platform \<Rightarrow> memory \<Rightarrow> 'e element_type \<Rightarrow> addr \<Rightarrow> error + iterator" where
  "Object_end pf m et this =
     (case Object_length pf m et this of
        Inl e \<Rightarrow> Inl e
      | Inr len \<Rightarrow> Inr (Iterator this len))"

section \<open>Notions the statements use\<close>

text \<open>The bytes stored behind a resolved handle \<open>ptr\<close> and behind a \<open>FlashString\<close>.\<close>

definition stored_bytes :: "memory \<Rightarrow> addr \<Rightarrow> u8 list" where
  "stored_bytes m ptr = load_bytes (byte_at m) (getObjectData ptr) (unat (getObjectLength m ptr))"

definition FlashString_content :: "memory \<Rightarrow> addr \<Rightarrow> u8 list" where
  "FlashString_content m this =
     load_bytes (byte_at m) (FlashString_data this) (unat (FlashString_length m this))"

text \<open>
  The handles on which the \<open>assert\<close> of \<open>getObjectPtr\<close> fails: the build is for the target
  and has assertions, the handle is no copy, its length field is not 0, and its address
  is outside the read-only region.
\<close>

definition assertion_fails :: "platform \<Rightarrow> memory \<Rightarrow> addr \<Rightarrow> bool" where
  "assertion_fails pf m h =
     (\<not> ARCH_HOST pf \<and> \<not> NDEBUG pf \<and> \<not> isCopy pf m h \<and> word_at m h \<noteq> 0 \<and>
      \<not> isFlashPtr pf h)"

text \<open>
  A canonical handle, as the data model has it: its tag bit is clear, it lies in the
  read-only region (which a host build cannot tell apart), and its address leaves the
  tag bit free, so that a copy can hold it as payload.
\<close>

definition canonical :: "platform \<Rightarrow> memory \<Rightarrow> addr \<Rightarrow> bool" where
  "canonical pf m h =
     (\<not> isCopy pf m h \<and> h AND copyBit pf = 0 \<and> (ARCH_HOST pf \<or> isFlashPtr pf h))"

text \<open>
  The device-read backend sees the bytes the cache shows: over the \<open>len\<close> bytes from
  \<open>d\<close> on, a device read at the translated address gives the byte in memory.
\<close>

definition flash_mapped :: "platform \<Rightarrow> memory \<Rightarrow> addr \<Rightarrow> u32 \<Rightarrow> bool" where
  "flash_mapped pf m d len =
     (\<forall>off i. unat off + i < unat len \<longrightarrow>
        flash_at pf (flashmem_get_address pf (d + off) + of_nat i) = byte_at m (d + off + of_nat i))"

section \<open>A concrete target\<close>

text \<open>
  A microcontroller with the flash mapped at \<open>0x40200000\<close> (1 MiB) and the tag in the top
  bit; the image holds the array \<open>[10, 20, 30, 40, 50]\<close> of 4-byte little-endian elements
  at \<open>0x40201000\<close>, an empty handle at \<open>0x40202000\<close> and the 5 bytes "hello" at
  \<open>0x40203000\<close>; RAM holds a copy of the array handle at \<open>0x3FFF0000\<close>, and at
  \<open>0x3FFF0010\<close> a handle that was copied bytewise (untagged, length 20). Its load
  primitives read the bytes the cache shows, the half-word low byte first.
\<close>

definition image_bytes :: "u8 list" where
  "image_bytes = [10, 0, 0, 0, 20, 0, 0, 0, 30, 0, 0, 0, 40, 0, 0, 0, 50, 0, 0, 0]"

definition hello_bytes :: "u8 list" where
  "hello_bytes = [104, 101, 108, 108, 111]"

definition device :: "u32 \<Rightarrow> u8" where
  "device a =
     (if 0x1004 \<le> a \<and> a < 0x1018 then image_bytes ! unat (a - 0x1004)
      else if 0x3004 \<le> a \<and> a < 0x3009 then hello_bytes ! unat (a - 0x3004)
      else 0)"

definition target :: "bool \<Rightarrow> platform" where
  "target release =
     \<lparr>ARCH_HOST = False, NDEBUG = release, copyBit = 0x80000000, empty_obj = 0x3FFE8000,
      isFlashPtr = (\<lambda>a. 0x40200000 \<le> a \<and> a < 0x40300000),
      flashmem_get_address = (\<lambda>a. a - 0x40200000),
      flash_at = device,
      pgm_read_byte = (\<lambda>m a. byte_at m a),
      pgm_read_word = (\<lambda>m a. ucast (byte_at m a) + 256 * ucast (byte_at m (a + 1)))\<rparr>"

definition ram :: memory where
  "ram =
     \<lparr>word_at = (\<lambda>a. if a = 0x40201000 then 20
                      else if a = 0x40203000 then 5
                      else if a = 0x3FFF0000 then 0xC0201000
                      else if a = 0x3FFF0010 then 20
                      else 0),
      byte_at = (\<lambda>a. device (a - 0x40200000))\<rparr>"

definition le_word :: "u8 list \<Rightarrow> u32" where
  "le_word bs = foldr (\<lambda>b acc. ucast b + 256 * acc) bs 0"

definition uint32_elem :: "u32 element_type" where
  "uint32_elem =
     \<lparr>sizeof_elem = 4, from_bytes = le_word, static_cast = Some word_of_int, zero_elem = 0\<rparr>"

text \<open>A memory whose every length field reads \<open>0xFFFFFFFE\<close>.\<close>

definition huge_string :: memory where
  "huge_string = \<lparr>word_at = (\<lambda>a. 0xFFFFFFFE), byte_at = (\<lambda>a. 0)\<rparr>"

text \<open>
  Integer element types of size 1 and 2, a class type of size 2 (a pair of bytes, with no
  conversion from an integer) and a type of size 3.
\<close>

definition uint8_elem :: "8 word element_type" where
  "uint8_elem =
     \<lparr>sizeof_elem = 1, from_bytes = hd, static_cast = Some word_of_int, zero_elem = 0\<rparr>"

definition uint16_elem :: "16 word element_type" where
  "uint16_elem =
     \<lparr>sizeof_elem = 2, from_bytes = (\<lambda>bs. ucast (le_word bs)), static_cast = Some word_of_int,
      zero_elem = 0\<rparr>"

definition pair_elem :: "(8 word \<times> 8 word) element_type" where
  "pair_elem =
     \<lparr>sizeof_elem = 2, from_bytes = (\<lambda>bs. (hd bs, hd (tl bs))), static_cast = None,
      zero_elem = (0, 0)\<rparr>"

definition rgb_elem :: "u8 list element_type" where
  "rgb_elem = \<lparr>sizeof_elem = 3, from_bytes = id, static_cast = None, zero_elem = [0, 0, 0]\<rparr>"

section \<open>The concrete target, unfolded\<close>

lemma target_simps:
  "ARCH_HOST (target r) = False" "NDEBUG (target r) = r" "copyBit (target r) = 0x80000000"
  "empty_obj (target r) = 0x3FFE8000"
  "isFlashPtr (target r) a = (0x40200000 \<le> a \<and> a < 0x40300000)"
  "flashmem_get_address (target r) a = a - 0x40200000"
  "flash_at (target r) = device"
  "pgm_read_byte (target r) m a = byte_at m a"
  "pgm_read_word (target r) m a = ucast (byte_at m a) + 256 * ucast (byte_at m (a + 1))"
  by (simp_all add: target_def)

lemma ram_word_at:
  "word_at ram a =
     (if a = 0x40201000 then 20
      else if a = 0x40203000 then 5
      else if a = 0x3FFF0000 then 0xC0201000
      else if a = 0x3FFF0010 then 20
      else 0)"
  by (simp add: ram_def)

lemma ram_byte_at: "byte_at ram a = device (a - 0x40200000)"
  by (simp add: ram_def)

section \<open>Resolution\<close>

text \<open>
  C1, as the code has it. Resolving a handle \<open>h\<close> gives the handle at \<open>h\<close>'s stored value
  with the tag bit masked out when \<open>h\<close> carries the copy tag; otherwise the empty
  singleton when \<open>h\<close>'s length field is 0; otherwise \<open>h\<close> itself when the build is a host
  build or \<open>h\<close>'s address passes the read-only-region check. A handle that fails the check
  resolves to the empty singleton when assertions are compiled out, and stops the program
  at the assertion otherwise. Every length, data and read operation (\<open>readFlash\<close>
  included) acts on the resolved handle \<open>p\<close>: it reads the length field and the data of
  \<open>p\<close>, never those of \<open>h\<close>.
\<close>

theorem getObjectPtr_cases:
  "getObjectPtr pf m h =
     (if isCopy pf m h then Inr (word_at m h AND NOT (copyBit pf))
      else if word_at m h = 0 then Inr (empty_obj pf)
      else if ARCH_HOST pf \<or> isFlashPtr pf h then Inr h
      else if NDEBUG pf then Inr (empty_obj pf)
      else Inl AssertionFailed)
   \<and> (getObjectPtr pf m h = Inr p \<longrightarrow>
        ObjectBase_length pf m h = Inr (getObjectLength m p) \<and>
        ObjectBase_data pf m h = Inr (getObjectData p) \<and>
        ObjectBase_read pf m h offset buffer count =
          Inr (if getObjectLength m p \<le> offset then (0, buffer)
               else (min (getObjectLength m p - offset) count,
                     memcpy_P m buffer (getObjectData p + offset)
                       (min (getObjectLength m p - offset) count))) \<and>
        readFlash pf m h offset buffer count =
          Inr (if getObjectLength m p \<le> offset then (0, buffer)
               else flashmem_read pf buffer
                      (flashmem_get_address pf (getObjectData p + offset))
                      (min (getObjectLength m p - offset) count)))"
  by (simp add: getObjectPtr_def ObjectBase_length_def ObjectBase_data_def
      ObjectBase_read_def readFlash_def Let_def)

text \<open>
  The copy in RAM at \<open>0x3FFF0000\<close> resolves to the array in flash, and its length, data
  pointer and device read are those of the array.
\<close>

theorem getObjectPtr_cases_witness:
  "getObjectPtr (target True) ram 0x3FFF0000 = Inr 0x40201000 \<and>
   ObjectBase_length (target True) ram 0x3FFF0000 = Inr 20 \<and>
   ObjectBase_data (target True) ram 0x3FFF0000 = Inr 0x40201004 \<and>
   readFlash (target True) ram 0x3FFF0000 4 [1, 1, 1, 1, 1, 1] 5 = Inr (5, [20, 0, 0, 0, 30, 1])"
proof -
  have c: "isCopy (target True) ram 0x3FFF0000"
    by (simp add: isCopy_def target_simps ram_word_at)
  have r: "getObjectPtr (target True) ram 0x3FFF0000 = Inr 0x40201000"
    using getObjectPtr_cases
      [of "target True" ram "0x3FFF0000" "0x40201000" 4 "[1, 1, 1, 1, 1, 1]" 5] c
    by (simp add: target_simps ram_word_at)
  show ?thesis
    using getObjectPtr_cases
      [of "target True" ram "0x3FFF0000" "0x40201000" 4 "[1, 1, 1, 1, 1, 1]" 5] r
    apply (simp add: getObjectLength_def getObjectData_def ram_word_at)
    apply (simp add: flashmem_read_def store_buf_def load_bytes_def target_simps device_def
        image_bytes_def upt_rec)
    done
qed

text \<open>
  Against C1 as stated: on a release build for the target, the untagged handle of
  length 20 at the RAM address \<open>0x3FFF0010\<close> does not resolve to itself but to the empty
  singleton.
\<close>

theorem resolution_not_three_way:
  "\<not> isCopy (target True) ram 0x3FFF0010 \<and> word_at ram 0x3FFF0010 \<noteq> 0 \<and>
   getObjectPtr (target True) ram 0x3FFF0010 = Inr (empty_obj (target True)) \<and>
   empty_obj (target True) \<noteq> 0x3FFF0010"
  by (simp add: getObjectPtr_def isCopy_def target_simps ram_word_at)

text \<open>
  C4, as the code has it. For a handle that is no copy, has a non-zero length field and
  whose own address fails the read-only-region check: a host build skips the check and
  resolves the handle to itself; every other build has the check, and resolution falls
  back to the empty singleton when assertions are compiled out (the release build),
  while with assertions compiled in (the debug build) the failed assertion stops the
  program before the fallback is reached.
\<close>

theorem corrupt_handle_resolution:
  assumes "\<not> isCopy pf m h" and "word_at m h \<noteq> 0" and "\<not> isFlashPtr pf h"
  shows "getObjectPtr pf m h =
     (if ARCH_HOST pf then Inr h
      else if NDEBUG pf then Inr (empty_obj pf)
      else Inl AssertionFailed)"
  using assms by (simp add: getObjectPtr_def)

theorem corrupt_handle_resolution_witness:
  "\<not> isCopy (target False) ram 0x3FFF0010 \<and> word_at ram 0x3FFF0010 \<noteq> 0 \<and>
   \<not> isFlashPtr (target False) 0x3FFF0010 \<and>
   getObjectPtr (target False) ram 0x3FFF0010 = Inl AssertionFailed"
proof -
  have a: "\<not> isCopy (target False) ram 0x3FFF0010"
    by (simp add: isCopy_def target_simps ram_word_at)
  have b: "word_at ram 0x3FFF0010 \<noteq> 0"
    by (simp add: ram_word_at)
  have c: "\<not> isFlashPtr (target False) 0x3FFF0010"
    by (simp add: target_simps)
  show ?thesis
    using a b c corrupt_handle_resolution [OF a b c] by (simp add: target_simps)
qed

text \<open>
  Against C4 as stated: the release build (\<open>NDEBUG\<close>) does not skip the check, it is the
  build in which the handle at \<open>0x3FFF0010\<close> falls back to the empty singleton; the debug
  build does not fall back, its assertion fails.
\<close>

theorem release_build_checks:
  "\<not> isCopy (target True) ram 0x3FFF0010 \<and> word_at ram 0x3FFF0010 = 20 \<and>
   \<not> isFlashPtr (target True) 0x3FFF0010 \<and> NDEBUG (target True) \<and>
   getObjectPtr (target True) ram 0x3FFF0010 = Inr 0x3FFE8000 \<and>
   \<not> NDEBUG (target False) \<and>
   getObjectPtr (target False) ram 0x3FFF0010 = Inl AssertionFailed"
  by (simp add: getObjectPtr_def isCopy_def target_simps ram_word_at)

section \<open>Reading bytes\<close>

lemma length_load_bytes: "length (load_bytes f a n) = n"
  by (simp add: load_bytes_def)

lemma load_bytes_slice:
  assumes "unat off + n \<le> L"
  shows "load_bytes f (d + off) n = take n (drop (unat off) (load_bytes f d L))"
proof (rule nth_equalityI)
  show "length (load_bytes f (d + off) n) = length (take n (drop (unat off) (load_bytes f d L)))"
    using assms by (simp add: load_bytes_def)
next
  fix i
  assume "i < length (load_bytes f (d + off) n)"
  then have i: "i < n"
    by (simp add: load_bytes_def)
  with assms have "unat off + i < L"
    by simp
  moreover have "d + of_nat (unat off + i) = d + off + of_nat i"
    by simp
  ultimately show "load_bytes f (d + off) n ! i = take n (drop (unat off) (load_bytes f d L)) ! i"
    using i by (simp add: load_bytes_def add.assoc)
qed

lemma clamp_fits:
  fixes len offset count :: u32
  assumes "offset < len"
  shows "unat offset + unat (min (len - offset) count) \<le> unat len"
proof -
  from assms have "unat (len - offset) = unat len - unat offset"
    by (simp add: unat_sub word_less_nat_alt word_le_nat_alt)
  moreover have "unat (min (len - offset) count) \<le> unat (len - offset)"
    by (simp add: word_le_nat_alt [symmetric])
  moreover from assms have "unat offset < unat len"
    by (simp add: word_less_nat_alt)
  ultimately show ?thesis
    by simp
qed

lemma FlashString_read_eq:
  "FlashString_read m s offset buffer count =
     (if FlashString_length m s \<le> offset then (0, buffer)
      else (min (FlashString_length m s - offset) count,
            store_buf buffer
              (take (unat (min (FlashString_length m s - offset) count))
                 (drop (unat offset) (FlashString_content m s)))))"
proof (cases "FlashString_length m s \<le> offset")
  case True
  then show ?thesis
    by (simp add: FlashString_read_def FlashString_length_def)
next
  case False
  then have lt: "offset < FlashString_length m s"
    by simp
  have "load_bytes (byte_at m) (FlashString_data s + offset)
          (unat (min (FlashString_length m s - offset) count)) =
        take (unat (min (FlashString_length m s - offset) count))
          (drop (unat offset) (FlashString_content m s))"
    unfolding FlashString_content_def
    by (rule load_bytes_slice) (rule clamp_fits [OF lt])
  with False show ?thesis
    by (simp add: FlashString_read_def FlashString_length_def memcpy_P_def Let_def)
qed

lemma readFlash_eq:
  assumes res: "getObjectPtr pf m h = Inr p"
    and dev: "flash_mapped pf m (getObjectData p) (getObjectLength m p)"
  shows "readFlash pf m h offset buffer count =
     Inr (if getObjectLength m p \<le> offset then (0, buffer)
          else (min (getObjectLength m p - offset) count,
                store_buf buffer
                  (take (unat (min (getObjectLength m p - offset) count))
                     (drop (unat offset) (stored_bytes m p)))))"
proof (cases "getObjectLength m p \<le> offset")
  case True
  with res show ?thesis
    by (simp add: readFlash_def)
next
  case False
  then have lt: "offset < getObjectLength m p"
    by simp
  let ?n = "unat (min (getObjectLength m p - offset) count)"
  have fits: "unat offset + ?n \<le> unat (getObjectLength m p)"
    by (rule clamp_fits [OF lt])
  have "load_bytes (flash_at pf) (flashmem_get_address pf (getObjectData p + offset)) ?n =
        load_bytes (byte_at m) (getObjectData p + offset) ?n"
    unfolding load_bytes_def
  proof (rule map_cong [OF refl])
    fix i
    assume "i \<in> set [0..<?n]"
    with fits have "unat offset + i < unat (getObjectLength m p)"
      by simp
    with dev show "flash_at pf (flashmem_get_address pf (getObjectData p + offset) + of_nat i) =
        byte_at m (getObjectData p + offset + of_nat i)"
      by (simp add: flash_mapped_def)
  qed
  also have "\<dots> = take ?n (drop (unat offset) (stored_bytes m p))"
    unfolding stored_bytes_def by (rule load_bytes_slice) (rule fits)
  finally show ?thesis
    using res False by (simp add: readFlash_def flashmem_read_def Let_def)
qed

text \<open>
  C3. The byte-granular read of a handle, through the cache (\<open>FlashString::read\<close>) and
  from the device (\<open>ObjectBase::readFlash\<close>, for a handle whose resolution returns and
  whose data the device backend sees as the cache shows it): when \<open>offset >= length()\<close>
  it returns 0 and leaves the buffer as it was; otherwise it copies exactly
  \<open>min(count, length() - offset)\<close> bytes, those from byte \<open>offset\<close> of the stored data on,
  and returns that count. In particular \<open>read(0, buf, length())\<close> copies exactly the
  stored bytes into the buffer.
\<close>

theorem byte_read:
  assumes res: "getObjectPtr pf m h = Inr p"
    and dev: "flash_mapped pf m (getObjectData p) (getObjectLength m p)"
  shows
    "FlashString_read m s offset buffer count =
       (if FlashString_length m s \<le> offset then (0, buffer)
        else (min count (FlashString_length m s - offset),
              store_buf buffer
                (take (unat (min count (FlashString_length m s - offset)))
                   (drop (unat offset) (FlashString_content m s))))) \<and>
     FlashString_read m s 0 buffer (FlashString_length m s) =
       (FlashString_length m s, store_buf buffer (FlashString_content m s)) \<and>
     readFlash pf m h offset buffer count =
       Inr (if getObjectLength m p \<le> offset then (0, buffer)
            else (min count (getObjectLength m p - offset),
                  store_buf buffer
                    (take (unat (min count (getObjectLength m p - offset)))
                       (drop (unat offset) (stored_bytes m p))))) \<and>
     readFlash pf m h 0 buffer (getObjectLength m p) =
       Inr (getObjectLength m p, store_buf buffer (stored_bytes m p))"
proof -
  have a: "FlashString_read m s 0 buffer (FlashString_length m s) =
       (FlashString_length m s, store_buf buffer (FlashString_content m s))"
    by (simp add: FlashString_read_eq FlashString_content_def load_bytes_def store_buf_def)
  have b: "readFlash pf m h 0 buffer (getObjectLength m p) =
       Inr (getObjectLength m p, store_buf buffer (stored_bytes m p))"
    by (simp add: readFlash_eq [OF res dev] stored_bytes_def load_bytes_def store_buf_def)
  show ?thesis
    using a b by (simp add: FlashString_read_eq readFlash_eq [OF res dev] min.commute)
qed


lemma flash_mapped_target: "flash_mapped (target r) ram d len"
  by (simp add: flash_mapped_def target_simps ram_byte_at algebra_simps)

lemma copy_resolves: "getObjectPtr (target r) ram 0x3FFF0000 = Inr 0x40201000"
  by (simp add: getObjectPtr_def isCopy_def target_simps ram_word_at)

lemma hello_content: "FlashString_content ram 0x40203000 = hello_bytes"
  by code_simp

lemma image_content: "stored_bytes ram 0x40201000 = image_bytes"
  by code_simp

text \<open>
  "hello" read from byte 3 on, and the array read through its copy in RAM.
\<close>

theorem byte_read_witness:
  "getObjectPtr (target True) ram 0x3FFF0000 = Inr 0x40201000 \<and>
   flash_mapped (target True) ram (getObjectData 0x40201000) (getObjectLength ram 0x40201000) \<and>
   FlashString_read ram 0x40203000 3 [9, 9, 9, 9, 9, 9] 4 = (2, [108, 111, 9, 9, 9, 9]) \<and>
   FlashString_read ram 0x40203000 0 [9, 9, 9, 9, 9, 9] 5 = (5, [104, 101, 108, 108, 111, 9]) \<and>
   readFlash (target True) ram 0x3FFF0000 3 [9, 9, 9, 9, 9, 9] 4 = Inr (4, [0, 20, 0, 0, 9, 9]) \<and>
   readFlash (target True) ram 0x3FFF0000 0 [9, 9, 9, 9, 9, 9] 20 =
     Inr (20, [10, 0, 0, 0, 20, 0, 0, 0, 30, 0, 0, 0, 40, 0, 0, 0, 50, 0, 0, 0])"
proof -
  note th = byte_read [OF copy_resolves flash_mapped_target,
      where s = "0x40203000" and offset = 3 and buffer = "[9, 9, 9, 9, 9, 9]" and count = 4]
  have len5: "FlashString_length ram 0x40203000 = 5"
    by (simp add: FlashString_length_def ram_word_at)
  have len20: "getObjectLength ram 0x40201000 = 20"
    by (simp add: getObjectLength_def ram_word_at)
  show ?thesis
    using th
    by (simp add: copy_resolves flash_mapped_target hello_content image_content len5 len20
        store_buf_def hello_bytes_def image_bytes_def)
qed


section \<open>Typed-read dispatch\<close>

lemma not_aligned_1_2: "\<not> IS_ALIGNED 1" "\<not> IS_ALIGNED 2"
  by (simp_all add: IS_ALIGNED_def)

lemma readValue_overload_aligned:
  assumes "IS_ALIGNED sz"
  shows "readValue_overload sz = Inr Dereference"
proof -
  from assms have "sz \<noteq> 1" and "sz \<noteq> 2"
    using not_aligned_1_2 by auto
  with assms show ?thesis
    by (simp add: readValue_overload_def readValue_enabled_def)
qed

lemma readValue_overload_cases:
  "readValue_overload sz =
     (if sz = 1 then Inr PgmReadByte
      else if sz = 2 then Inr PgmReadWord
      else if IS_ALIGNED sz then Inr Dereference
      else Inl NoMatchingOverload)"
  by (simp add: readValue_overload_def readValue_enabled_def not_aligned_1_2)

lemma readValue_built:
  "readValue_instance et = Inr run \<Longrightarrow> readValue pf m et ptr = Inr (run pf m ptr)"
  by (simp add: readValue_def)

text \<open>
  C7. Which \<open>readValue\<close> runs is fixed when the template is instantiated, by the element
  type's size alone: the selection takes the size and nothing else, and the function
  that then runs is one load, with no test of the size in it. Size 1 gives the
  single-byte load through \<open>pgm_read_byte\<close>, size 2 the half-word load through
  \<open>pgm_read_word\<close> (each converted by \<open>static_cast<T>\<close>, which the type must have), a
  size that satisfies \<open>IS_ALIGNED\<close> the plain dereference of the pointer; no size
  enables two overloads. For any other size no overload exists: the instantiation is
  refused, whatever the platform, the pointer and the memory are, and a \<open>readValue\<close>
  that was built never fails when it runs.
\<close>

theorem readValue_dispatch:
  "readValue_overload 1 = Inr PgmReadByte \<and>
   readValue_overload 2 = Inr PgmReadWord \<and>
   (IS_ALIGNED sz \<longrightarrow> readValue_overload sz = Inr Dereference) \<and>
   (sz \<noteq> 1 \<and> sz \<noteq> 2 \<and> \<not> IS_ALIGNED sz \<longrightarrow> readValue_overload sz = Inl NoMatchingOverload) \<and>
   readValue_overload sz \<noteq> Inl AmbiguousOverload \<and>
   (sizeof_elem et = 1 \<longrightarrow>
      readValue_instance et =
        (case static_cast et of
           None \<Rightarrow> Inl InvalidStaticCast
         | Some c \<Rightarrow> Inr (\<lambda>pf m ptr. c (uint (pgm_read_byte pf m ptr))))) \<and>
   (sizeof_elem et = 2 \<longrightarrow>
      readValue_instance et =
        (case static_cast et of
           None \<Rightarrow> Inl InvalidStaticCast
         | Some c \<Rightarrow> Inr (\<lambda>pf m ptr. c (uint (pgm_read_word pf m ptr))))) \<and>
   (IS_ALIGNED (sizeof_elem et) \<longrightarrow>
      readValue_instance et =
        Inr (\<lambda>pf m ptr. from_bytes et (load_bytes (byte_at m) ptr (unat (sizeof_elem et))))) \<and>
   (sizeof_elem et \<noteq> 1 \<and> sizeof_elem et \<noteq> 2 \<and> \<not> IS_ALIGNED (sizeof_elem et) \<longrightarrow>
      readValue_instance et = Inl NoMatchingOverload) \<and>
   (readValue_instance et = Inr run \<longrightarrow> readValue pf m et ptr = Inr (run pf m ptr)) \<and>
   (readValue_instance et = Inl e \<longrightarrow> readValue pf m et ptr = Inl e) \<and>
   (readValue pf m et ptr = Inl e \<longrightarrow> readValue pf' m' et ptr' = Inl e)"
proof -
  have refused: "readValue pf' m' et ptr' = Inl e" if "readValue pf m et ptr = Inl e"
    using that by (cases "readValue_instance et") (simp_all add: readValue_def)
  show ?thesis
    using refused
    by (simp add: readValue_def readValue_instance_def readValue_overload_cases
        readValue_overload_aligned not_aligned_1_2)
qed

lemma uint32_instance:
  "readValue_instance uint32_elem =
     Inr (\<lambda>pf m ptr. le_word (load_bytes (byte_at m) ptr 4))"
  by (simp add: readValue_instance_def readValue_overload_cases IS_ALIGNED_def uint32_elem_def)

text \<open>
  Sizes 1, 2 and 4 on the concrete target: the second element of the array read as a
  byte, as a half-word and as a word; the pair of bytes (size 2, no conversion from an
  integer) and the 3-byte type are refused.
\<close>

theorem readValue_dispatch_witness:
  "IS_ALIGNED 4 \<and> readValue_overload 4 = Inr Dereference \<and>
   3 \<noteq> (1::u32) \<and> 3 \<noteq> (2::u32) \<and> \<not> IS_ALIGNED 3 \<and>
   readValue_overload 3 = Inl NoMatchingOverload \<and>
   sizeof_elem uint8_elem = 1 \<and>
   readValue_instance uint8_elem =
     Inr (\<lambda>pf m ptr. word_of_int (uint (pgm_read_byte pf m ptr))) \<and>
   readValue (target True) ram uint8_elem 0x40201008 = Inr 20 \<and>
   sizeof_elem uint16_elem = 2 \<and>
   readValue_instance uint16_elem =
     Inr (\<lambda>pf m ptr. word_of_int (uint (pgm_read_word pf m ptr))) \<and>
   readValue (target True) ram uint16_elem 0x40201008 = Inr 20 \<and>
   sizeof_elem pair_elem = 2 \<and>
   readValue_instance pair_elem = Inl InvalidStaticCast \<and>
   readValue (target True) ram pair_elem 0x40201008 = Inl InvalidStaticCast \<and>
   IS_ALIGNED (sizeof_elem uint32_elem) \<and>
   readValue (target True) ram uint32_elem 0x40201008 = Inr 20 \<and>
   sizeof_elem rgb_elem = 3 \<and>
   readValue (target True) ram rgb_elem 0x40201008 = Inl NoMatchingOverload \<and>
   readValue (target False) huge_string rgb_elem 0 = Inl NoMatchingOverload"
proof -
  have a4: "IS_ALIGNED 4" and a3: "\<not> IS_ALIGNED 3"
    by (simp_all add: IS_ALIGNED_def)
  have loads:
    "pgm_read_byte (target True) ram 0x40201008 = 20"
    "pgm_read_word (target True) ram 0x40201008 = 20"
    "le_word (load_bytes (byte_at ram) 0x40201008 4) = 20"
    by code_simp+
  have fields:
    "sizeof_elem uint8_elem = 1" "static_cast uint8_elem = Some word_of_int"
    "sizeof_elem uint16_elem = 2" "static_cast uint16_elem = Some word_of_int"
    "sizeof_elem pair_elem = 2" "static_cast pair_elem = None"
    "sizeof_elem uint32_elem = 4" "from_bytes uint32_elem = le_word"
    "sizeof_elem rgb_elem = 3"
    by (simp_all add: uint8_elem_def uint16_elem_def pair_elem_def uint32_elem_def rgb_elem_def)
  note d8 = readValue_dispatch
    [where sz = 4 and et = uint8_elem and pf = "target True" and m = ram and ptr = "0x40201008"
       and pf' = "target False" and m' = huge_string and ptr' = 0
       and run = "\<lambda>pf m ptr. word_of_int (uint (pgm_read_byte pf m ptr))"
       and e = InvalidStaticCast]
  note d16 = readValue_dispatch
    [where sz = 3 and et = uint16_elem and pf = "target True" and m = ram and ptr = "0x40201008"
       and pf' = "target False" and m' = huge_string and ptr' = 0
       and run = "\<lambda>pf m ptr. word_of_int (uint (pgm_read_word pf m ptr))"
       and e = InvalidStaticCast]
  note dp = readValue_dispatch
    [where sz = 4 and et = pair_elem and pf = "target True" and m = ram and ptr = "0x40201008"
       and pf' = "target False" and m' = huge_string and ptr' = 0
       and run = "\<lambda>pf m ptr. (0, 0)" and e = InvalidStaticCast]
  note d32 = readValue_dispatch
    [where sz = 4 and et = uint32_elem and pf = "target True" and m = ram and ptr = "0x40201008"
       and pf' = "target False" and m' = huge_string and ptr' = 0
       and run = "\<lambda>pf m ptr. le_word (load_bytes (byte_at m) ptr 4)"
       and e = InvalidStaticCast]
  note d3 = readValue_dispatch
    [where sz = 3 and et = rgb_elem and pf = "target True" and m = ram and ptr = "0x40201008"
       and pf' = "target False" and m' = huge_string and ptr' = 0
       and run = "\<lambda>pf m ptr. []" and e = NoMatchingOverload]
  have r8: "readValue (target True) ram uint8_elem 0x40201008 = Inr 20"
    using d8 by (simp add: fields loads)
  have r16: "readValue (target True) ram uint16_elem 0x40201008 = Inr 20"
    using d16 by (simp add: fields loads)
  have rp: "readValue (target True) ram pair_elem 0x40201008 = Inl InvalidStaticCast"
    using dp by (simp add: fields)
  have r32: "readValue (target True) ram uint32_elem 0x40201008 = Inr 20"
    using d32 a4 by (simp add: fields loads)
  have r3: "readValue (target True) ram rgb_elem 0x40201008 = Inl NoMatchingOverload"
    using d3 a3 by (simp add: fields)
  have r3': "readValue (target False) huge_string rgb_elem 0 = Inl NoMatchingOverload"
    using d3 r3 by simp
  show ?thesis
    using d8 d16 dp d32 a4 a3 r8 r16 rp r32 r3 r3' by (simp add: fields)
qed

section \<open>Indexed access\<close>

lemma Object_length_resolved:
  "getObjectPtr pf m h = Inr p \<Longrightarrow>
   Object_length pf m et h = Inr (getObjectLength m p div sizeof_elem et)"
  by (simp add: Object_length_def ObjectBase_length_def)

lemma valueAt_resolved:
  assumes "getObjectPtr pf m h = Inr p" and "readValue_instance et = Inr run"
  shows "valueAt pf m et h index =
     Inr (if index < getObjectLength m p div sizeof_elem et
          then run pf m (getObjectData p + index * sizeof_elem et)
          else zero_elem et)"
  using assms
  by (simp add: valueAt_def Object_length_resolved Object_data_def ObjectBase_data_def
      readValue_built)

lemma getObjectPtr_fails:
  "assertion_fails pf m h \<Longrightarrow> getObjectPtr pf m h = Inl AssertionFailed"
  by (simp add: getObjectPtr_def assertion_fails_def)

lemma getObjectPtr_returns:
  "\<not> assertion_fails pf m h \<Longrightarrow> \<exists>p. getObjectPtr pf m h = Inr p"
  by (auto simp add: getObjectPtr_def assertion_fails_def)

lemma valueAt_fails:
  "assertion_fails pf m h \<Longrightarrow> valueAt pf m et h index = Inl AssertionFailed"
  by (simp add: valueAt_def Object_length_def ObjectBase_length_def getObjectPtr_fails)

lemma element_inside:
  fixes index blen sz :: u32
  assumes "index < blen div sz"
  shows "unat index * unat sz + unat sz \<le> unat blen"
proof -
  from assms have "Suc (unat index) \<le> unat blen div unat sz"
    by (simp add: word_less_nat_alt unat_div)
  then have "Suc (unat index) * unat sz \<le> unat blen div unat sz * unat sz"
    by (rule mult_le_mono1)
  also have "\<dots> \<le> unat blen"
    by simp
  finally show ?thesis
    by (simp add: add.commute)
qed

text \<open>
  C5, as the code has it. For a typed sequence (its element type is one \<open>readValue\<close> can
  be built for) and every index: on a handle on which the assertion of resolution fails
  (a target build with assertions, a handle that is no copy, has a non-zero length field
  and lies outside the read-only region) \<open>valueAt(index)\<close> stops at the assertion; on
  every other handle it returns a value and never fails: the stored element at \<open>index\<close>
  when \<open>index < length()\<close>, read at \<open>data() + index\<close> and lying inside the handle's data,
  and the zero-valued element when \<open>index >= length()\<close>. \<open>operator[]\<close> is \<open>valueAt\<close> for
  all indices.
\<close>

theorem valueAt_total:
  assumes "readValue_instance et = Inr run"
  shows
    "(assertion_fails pf m h \<longrightarrow> valueAt pf m et h index = Inl AssertionFailed) \<and>
     (\<not> assertion_fails pf m h \<longrightarrow>
        (\<exists>p. getObjectPtr pf m h = Inr p \<and>
             Object_length pf m et h = Inr (getObjectLength m p div sizeof_elem et) \<and>
             valueAt pf m et h index =
               Inr (if index < getObjectLength m p div sizeof_elem et
                    then run pf m (getObjectData p + index * sizeof_elem et)
                    else zero_elem et) \<and>
             (index < getObjectLength m p div sizeof_elem et \<longrightarrow>
                unat index * unat (sizeof_elem et) + unat (sizeof_elem et)
                  \<le> unat (getObjectLength m p)))) \<and>
     subscript pf m et h index = valueAt pf m et h index"
proof -
  have ok: "\<exists>p. getObjectPtr pf m h = Inr p \<and>
             Object_length pf m et h = Inr (getObjectLength m p div sizeof_elem et) \<and>
             valueAt pf m et h index =
               Inr (if index < getObjectLength m p div sizeof_elem et
                    then run pf m (getObjectData p + index * sizeof_elem et)
                    else zero_elem et) \<and>
             (index < getObjectLength m p div sizeof_elem et \<longrightarrow>
                unat index * unat (sizeof_elem et) + unat (sizeof_elem et)
                  \<le> unat (getObjectLength m p))"
    if "\<not> assertion_fails pf m h"
  proof -
    from that obtain p where p: "getObjectPtr pf m h = Inr p"
      using getObjectPtr_returns by blast
    show ?thesis
      using p Object_length_resolved [OF p] valueAt_resolved [OF p assms] element_inside
      by blast
  qed
  show ?thesis
    using ok valueAt_fails [of pf m h et index] by (simp add: subscript_def)
qed

text \<open>
  Element 2 of the array through its copy, an index past the end, and the bytewise copy
  at \<open>0x3FFF0010\<close> on the debug build.
\<close>

theorem valueAt_total_witness:
  "readValue_instance uint32_elem =
     Inr (\<lambda>pf m ptr. le_word (load_bytes (byte_at m) ptr 4)) \<and>
   \<not> assertion_fails (target True) ram 0x3FFF0000 \<and>
   valueAt (target True) ram uint32_elem 0x3FFF0000 2 = Inr 30 \<and>
   valueAt (target True) ram uint32_elem 0x3FFF0000 5 = Inr 0 \<and>
   subscript (target True) ram uint32_elem 0x3FFF0000 2 = Inr 30 \<and>
   assertion_fails (target False) ram 0x3FFF0010 \<and>
   valueAt (target False) ram uint32_elem 0x3FFF0010 2 = Inl AssertionFailed"
proof -
  have ok: "\<not> assertion_fails (target True) ram 0x3FFF0000"
    by (simp add: assertion_fails_def target_simps)
  have bad: "assertion_fails (target False) ram 0x3FFF0010"
    by (simp add: assertion_fails_def isCopy_def target_simps ram_word_at)
  have e: "le_word (load_bytes (byte_at ram) (getObjectData 0x40201000 + 8) 4) = 30"
    by code_simp
  have len: "getObjectLength ram 0x40201000 = 20"
    by (simp add: getObjectLength_def ram_word_at)
  have fields: "sizeof_elem uint32_elem = 4" "zero_elem uint32_elem = 0"
    by (simp_all add: uint32_elem_def)
  note res = copy_resolves [of True]
  show ?thesis
    using valueAt_total [OF uint32_instance, where pf = "target True" and m = ram
        and h = "0x3FFF0000" and index = 2]
      valueAt_total [OF uint32_instance, where pf = "target True" and m = ram
        and h = "0x3FFF0000" and index = 5]
      valueAt_total [OF uint32_instance, where pf = "target False" and m = ram
        and h = "0x3FFF0010" and index = 2]
      ok bad
    by (simp add: uint32_instance res e len fields)
qed

text \<open>
  Against C5 as stated: on the debug build for the target, \<open>valueAt\<close> and \<open>operator[]\<close> on
  the untagged handle of length 20 at the RAM address \<open>0x3FFF0010\<close> return no value, for
  an index inside the sequence and for one past its end: the assertion of resolution
  fails.
\<close>

theorem valueAt_stops_at_assertion:
  "valueAt (target False) ram uint32_elem 0x3FFF0010 0 = Inl AssertionFailed \<and>
   valueAt (target False) ram uint32_elem 0x3FFF0010 7 = Inl AssertionFailed \<and>
   subscript (target False) ram uint32_elem 0x3FFF0010 0 = Inl AssertionFailed"
  by (simp add: subscript_def valueAt_def Object_length_def ObjectBase_length_def
      getObjectPtr_def isCopy_def target_simps ram_word_at)

section \<open>Iteration\<close>

text \<open>
  C9. \<open>begin()\<close> and \<open>end()\<close> construct iterators that reference this sequence, at
  position 0 and at position \<open>length()\<close>; two iterators compare equal iff they reference
  the same sequence and the same position; so for a sequence with \<open>length() == 0\<close>,
  \<open>begin() == end()\<close>.
\<close>

theorem begin_end:
  assumes "Object_length pf m et h = Inr len"
  shows "Object_begin h = Iterator h 0 \<and>
     Object_end pf m et h = Inr (Iterator h len) \<and>
     (iterator_eq a b \<longleftrightarrow> it_object a = it_object b \<and> it_index a = it_index b) \<and>
     (len = 0 \<longrightarrow> iterator_eq (Object_begin h) (Iterator h len))"
  using assms by (simp add: Object_begin_def Object_end_def iterator_eq_def Iterator_def)

text \<open>The empty handle at \<open>0x40202000\<close>: its \<open>begin()\<close> and \<open>end()\<close> are equal.\<close>

theorem begin_end_witness:
  "Object_length (target True) ram uint32_elem 0x40202000 = Inr 0 \<and>
   Object_end (target True) ram uint32_elem 0x40202000 = Inr (Iterator 0x40202000 0) \<and>
   iterator_eq (Object_begin 0x40202000) (Iterator 0x40202000 0)"
proof -
  have len: "Object_length (target True) ram uint32_elem 0x40202000 = Inr 0"
    by (simp add: Object_length_def ObjectBase_length_def getObjectPtr_def isCopy_def
        getObjectLength_def target_simps ram_word_at)
  show ?thesis
    using begin_end [OF len] len by simp
qed

section \<open>Search\<close>

lemma word_succ_le: "(i::u32) < k \<Longrightarrow> i + 1 \<le> k"
  by (simp add: inc_le)

lemma word_le_succ: "(i::u32) < len \<Longrightarrow> i + 1 \<le> j \<Longrightarrow> i < j"
  by (metis interval_class.inc_less_eq_imp_less)

lemma indexOf_loop_absent:
  "\<forall>j. i \<le> j \<and> j < len \<longrightarrow> (\<exists>x. valueAt pf m et h j = Inr x \<and> \<not> eq x v) \<Longrightarrow>
   indexOf_loop pf m et h eq v len i = Inr (- 1)"
proof (induction pf m et h eq v len i rule: indexOf_loop.induct)
  case (1 pf m et h eq v len i)
  show ?case
  proof (cases "i < len")
    case False
    then show ?thesis
      by (subst indexOf_loop.simps) simp
  next
    case True
    with "1.prems" obtain x where x: "valueAt pf m et h i = Inr x" "\<not> eq x v"
      by auto
    have "\<forall>j. i + 1 \<le> j \<and> j < len \<longrightarrow> (\<exists>x. valueAt pf m et h j = Inr x \<and> \<not> eq x v)"
      using "1.prems" True word_le_succ by (meson less_imp_le)
    then have "indexOf_loop pf m et h eq v len (i + 1) = Inr (- 1)"
      using "1.IH" True x by simp
    with True x show ?thesis
      by (subst indexOf_loop.simps) simp
  qed
qed

lemma indexOf_loop_first:
  "i \<le> k \<Longrightarrow> k < len \<Longrightarrow> valueAt pf m et h k = Inr y \<Longrightarrow> eq y v \<Longrightarrow>
   \<forall>j. i \<le> j \<and> j < k \<longrightarrow> (\<exists>x. valueAt pf m et h j = Inr x \<and> \<not> eq x v) \<Longrightarrow>
   indexOf_loop pf m et h eq v len i = Inr (sint k)"
proof (induction pf m et h eq v len i rule: indexOf_loop.induct)
  case (1 pf m et h eq v len i)
  from "1.prems" have lt: "i < len"
    by simp
  show ?case
  proof (cases "i = k")
    case True
    with "1.prems" lt show ?thesis
      by (subst indexOf_loop.simps) simp
  next
    case False
    with "1.prems" have ik: "i < k"
      by simp
    with "1.prems" obtain x where x: "valueAt pf m et h i = Inr x" "\<not> eq x v"
      by auto
    have le: "i + 1 \<le> k"
      using ik by (rule word_succ_le)
    have rest: "\<forall>j. i + 1 \<le> j \<and> j < k \<longrightarrow> (\<exists>x. valueAt pf m et h j = Inr x \<and> \<not> eq x v)"
      using "1.prems" lt word_le_succ by (meson less_imp_le)
    have "indexOf_loop pf m et h eq v len (i + 1) = Inr (sint k)"
      using "1.IH" [OF lt x le "1.prems"(2) "1.prems"(3) "1.prems"(4) rest] .
    with lt x show ?thesis
      by (subst indexOf_loop.simps) simp
  qed
qed

lemma sint_eq_unat:
  fixes k :: "'a::len word"
  assumes "unat k < 2 ^ (LENGTH('a) - Suc 0)"
  shows "sint k = int (unat k)"
proof -
  have "int (unat k) < int (2 ^ (LENGTH('a) - Suc 0))"
    using assms by (rule iffD2 [OF of_nat_less_iff])
  then have up: "uint k < 2 ^ (LENGTH('a) - Suc 0)"
    by simp
  have "- (2 ^ (LENGTH('a) - Suc 0)) \<le> (0::int)"
    by simp
  also have "0 \<le> uint k"
    by simp
  finally have "signed_take_bit (LENGTH('a) - Suc 0) (uint k) = uint k"
    using up by (rule signed_take_bit_int_eq_self)
  then show ?thesis
    by (simp add: sint_uint)
qed

lemma sint_small:
  fixes k :: u32
  assumes "unat k < 2 ^ 31"
  shows "sint k = int (unat k)"
  using assms sint_eq_unat [of k] by simp

text \<open>
  C8. For a typed sequence (a handle whose resolution returns, an element type
  \<open>readValue\<close> can be built for, an element count that fits the \<open>int\<close> result) and a
  value, \<open>indexOf\<close> scans from index 0: it returns the smallest index \<open>k\<close> at
  which \<open>valueAt(k)\<close> equals the value, and -1 when no element equals it; nothing is
  assumed about the order of the elements; on an empty sequence it returns -1.
\<close>

theorem indexOf_first:
  assumes res: "getObjectPtr pf m h = Inr p"
    and built: "readValue_instance et = Inr run"
    and fits: "unat (getObjectLength m p div sizeof_elem et) \<le> 2 ^ 31"
  shows
    "(k < getObjectLength m p div sizeof_elem et \<and>
      valueAt pf m et h k = Inr y \<and> eq y v \<and>
      (\<forall>i x. i < k \<and> valueAt pf m et h i = Inr x \<longrightarrow> \<not> eq x v)
      \<longrightarrow> indexOf pf m et h eq v = Inr (int (unat k))) \<and>
     ((\<forall>i x. i < getObjectLength m p div sizeof_elem et \<and> valueAt pf m et h i = Inr x
          \<longrightarrow> \<not> eq x v)
      \<longrightarrow> indexOf pf m et h eq v = Inr (- 1)) \<and>
     (getObjectLength m p div sizeof_elem et = 0 \<longrightarrow> indexOf pf m et h eq v = Inr (- 1))"
proof -
  let ?len = "getObjectLength m p div sizeof_elem et"
  have len: "Object_length pf m et h = Inr ?len"
    using res by (rule Object_length_resolved)
  have returns: "\<exists>x. valueAt pf m et h i = Inr x" for i
    using valueAt_resolved [OF res built] by simp
  have found: "indexOf pf m et h eq v = Inr (int (unat k))"
    if k: "k < ?len" and y: "valueAt pf m et h k = Inr y" "eq y v"
      and before: "\<forall>i x. i < k \<and> valueAt pf m et h i = Inr x \<longrightarrow> \<not> eq x v"
  proof -
    have "\<forall>j. 0 \<le> j \<and> j < k \<longrightarrow> (\<exists>x. valueAt pf m et h j = Inr x \<and> \<not> eq x v)"
      using before returns by blast
    then have "indexOf_loop pf m et h eq v ?len 0 = Inr (sint k)"
      using k y by (intro indexOf_loop_first) simp_all
    moreover have "unat k < 2 ^ 31"
      using k fits by (simp add: word_less_nat_alt)
    ultimately show ?thesis
      by (simp add: indexOf_def len sint_small)
  qed
  have absent: "indexOf pf m et h eq v = Inr (- 1)"
    if none: "\<forall>i x. i < ?len \<and> valueAt pf m et h i = Inr x \<longrightarrow> \<not> eq x v"
  proof -
    have "\<forall>j. 0 \<le> j \<and> j < ?len \<longrightarrow> (\<exists>x. valueAt pf m et h j = Inr x \<and> \<not> eq x v)"
      using none returns by blast
    then have "indexOf_loop pf m et h eq v ?len 0 = Inr (- 1)"
      by (rule indexOf_loop_absent)
    then show ?thesis
      by (simp add: indexOf_def len)
  qed
  have empty: "indexOf pf m et h eq v = Inr (- 1)" if "?len = 0"
    using that absent by simp
  show ?thesis
    using found absent empty by blast
qed

lemma below_5: "(i::u32) < 5 \<Longrightarrow> i = 0 \<or> i = 1 \<or> i = 2 \<or> i = 3 \<or> i = 4"
  by unat_arith

lemma array_values:
  "valueAt (target True) ram uint32_elem 0x3FFF0000 0 = Inr 10"
  "valueAt (target True) ram uint32_elem 0x3FFF0000 1 = Inr 20"
  "valueAt (target True) ram uint32_elem 0x3FFF0000 2 = Inr 30"
  "valueAt (target True) ram uint32_elem 0x3FFF0000 3 = Inr 40"
  "valueAt (target True) ram uint32_elem 0x3FFF0000 4 = Inr 50"
  by code_simp+

text \<open>In \<open>[10, 20, 30, 40, 50]\<close>, 40 is at index 3 and 99 is absent.\<close>

theorem indexOf_first_witness:
  "getObjectPtr (target True) ram 0x3FFF0000 = Inr 0x40201000 \<and>
   readValue_instance uint32_elem =
     Inr (\<lambda>pf m ptr. le_word (load_bytes (byte_at m) ptr 4)) \<and>
   unat (getObjectLength ram 0x40201000 div sizeof_elem uint32_elem) \<le> 2 ^ 31 \<and>
   indexOf (target True) ram uint32_elem 0x3FFF0000 (=) 40 = Inr 3 \<and>
   indexOf (target True) ram uint32_elem 0x3FFF0000 (=) 99 = Inr (- 1)"
proof -
  have array_length: "getObjectLength ram 0x40201000 div sizeof_elem uint32_elem = 5"
    by (simp add: getObjectLength_def ram_word_at uint32_elem_def)
  have fits: "unat (getObjectLength ram 0x40201000 div sizeof_elem uint32_elem) \<le> 2 ^ 31"
    by (simp add: array_length)
  note th = indexOf_first [OF copy_resolves [of True] uint32_instance fits]
  have "indexOf (target True) ram uint32_elem 0x3FFF0000 (=) 40 = Inr (int (unat (3::u32)))"
  proof (rule th [where k = 3 and y = 40 and v = 40 and eq = "(=)", THEN conjunct1, THEN mp], intro conjI allI impI)
    fix i x :: u32
    assume "i < 3 \<and> valueAt (target True) ram uint32_elem 0x3FFF0000 i = Inr x"
    moreover from this have "i = 0 \<or> i = 1 \<or> i = 2"
      by unat_arith
    ultimately show "x \<noteq> 40"
      using array_values by auto
  qed (simp_all add: array_length array_values)
  moreover
  have "indexOf (target True) ram uint32_elem 0x3FFF0000 (=) 99 = Inr (- 1)"
  proof (rule th [where v = 99 and eq = "(=)", THEN conjunct2, THEN conjunct1, THEN mp], intro allI impI)
    fix i x :: u32
    assume a: "i < getObjectLength ram 0x40201000 div sizeof_elem uint32_elem \<and>
      valueAt (target True) ram uint32_elem 0x3FFF0000 i = Inr x"
    then have "i = 0 \<or> i = 1 \<or> i = 2 \<or> i = 3 \<or> i = 4"
      by (simp add: array_length below_5)
    with a show "x \<noteq> 99"
      using array_values by auto
  qed
  ultimately show ?thesis
    using fits by (simp add: copy_resolves uint32_instance)
qed

section \<open>Copies\<close>

lemma tag_set: "(h OR cb) AND cb = (cb::u32)"
  by (simp add: bit_eq_iff bit_simps)

lemma tag_masked:
  fixes h cb :: u32
  assumes "h AND cb = 0"
  shows "(h OR cb) AND NOT cb = h"
proof (rule bit_word_eqI)
  fix n
  assume n: "n < LENGTH(32)"
  from assms have "\<not> (bit h n \<and> bit cb n)"
    by (metis bit_and_iff bit_0_eq bot_apply bot_bool_def)
  with n show "bit ((h OR cb) AND NOT cb) n = bit h n"
    by (auto simp add: bit_simps)
qed

lemma copy_word_at: "word_at (Object_copy pf m this obj) a = (if a = this then obj OR copyBit pf else word_at m a)"
  by (simp add: Object_copy_def copy_def)

lemma copy_byte_at: "byte_at (Object_copy pf m this obj) = byte_at m"
  by (simp add: Object_copy_def copy_def)

lemma copy_isCopy: "copyBit pf \<noteq> 0 \<Longrightarrow> isCopy pf (Object_copy pf m H2 H) H2"
  by (simp add: isCopy_def copy_word_at tag_set)

lemma copy_resolves_to_source:
  assumes "copyBit pf \<noteq> 0" and "H AND copyBit pf = 0"
  shows "getObjectPtr pf (Object_copy pf m H2 H) H2 = Inr H"
  using assms by (simp add: getObjectPtr_def copy_isCopy copy_word_at tag_masked)

lemma source_resolves:
  assumes "canonical pf m H" and "H2 \<noteq> H"
  shows "getObjectPtr pf (Object_copy pf m H2 H) H =
     Inr (if word_at m H = 0 then empty_obj pf else H)"
  using assms by (auto simp add: getObjectPtr_def canonical_def isCopy_def copy_word_at)

text \<open>
  C2. Let \<open>H\<close> be a canonical handle and \<open>H2\<close> a new object (at an address other than
  \<open>H\<close>'s and the empty singleton's) made by the copy constructor from \<open>H\<close>. Then
  \<open>H2.length() == H.length()\<close>, the \<open>length()\<close> bytes at \<open>H2.data()\<close> are the bytes at
  \<open>H.data()\<close>, \<open>H2.isCopy()\<close> is true and \<open>H.isCopy()\<close> is false, and the copy stores only
  the tagged address of \<open>H\<close>: the constructor writes the length field of \<open>H2\<close> and
  nothing else, no data byte in particular.
\<close>

theorem copy_semantics:
  assumes can: "canonical pf m H"
    and tag: "copyBit pf \<noteq> 0"
    and emp: "word_at m (empty_obj pf) = 0"
    and fresh: "H2 \<noteq> H" "H2 \<noteq> empty_obj pf"
  shows
    "ObjectBase_length pf (Object_copy pf m H2 H) H2 = Inr (word_at m H) \<and>
     ObjectBase_length pf (Object_copy pf m H2 H) H = Inr (word_at m H) \<and>
     ObjectBase_content pf (Object_copy pf m H2 H) H2 =
       Inr (load_bytes (byte_at m) (getObjectData H) (unat (word_at m H))) \<and>
     ObjectBase_content pf (Object_copy pf m H2 H) H =
       Inr (load_bytes (byte_at m) (getObjectData H) (unat (word_at m H))) \<and>
     isCopy pf (Object_copy pf m H2 H) H2 \<and>
     \<not> isCopy pf (Object_copy pf m H2 H) H \<and>
     word_at (Object_copy pf m H2 H) H2 = H OR copyBit pf \<and>
     (\<forall>a. a \<noteq> H2 \<longrightarrow> word_at (Object_copy pf m H2 H) a = word_at m a) \<and>
     byte_at (Object_copy pf m H2 H) = byte_at m"
proof -
  let ?m = "Object_copy pf m H2 H"
  from can have clear: "H AND copyBit pf = 0" and notcopy: "\<not> isCopy pf m H"
    by (simp_all add: canonical_def)
  have r2: "getObjectPtr pf ?m H2 = Inr H"
    using tag clear by (rule copy_resolves_to_source)
  have r1: "getObjectPtr pf ?m H = Inr (if word_at m H = 0 then empty_obj pf else H)"
    using can fresh(1) by (rule source_resolves)
  have l2: "ObjectBase_length pf ?m H2 = Inr (word_at m H)"
    using fresh by (simp add: ObjectBase_length_def r2 getObjectLength_def copy_word_at)
  have l1: "ObjectBase_length pf ?m H = Inr (word_at m H)"
    using fresh emp by (simp add: ObjectBase_length_def r1 getObjectLength_def copy_word_at)
  have c2: "ObjectBase_content pf ?m H2 =
      Inr (load_bytes (byte_at m) (getObjectData H) (unat (word_at m H)))"
    by (simp add: ObjectBase_content_def l2 ObjectBase_data_def r2 copy_byte_at)
  have c1: "ObjectBase_content pf ?m H =
      Inr (load_bytes (byte_at m) (getObjectData H) (unat (word_at m H)))"
    by (simp add: ObjectBase_content_def l1 ObjectBase_data_def r1 copy_byte_at load_bytes_def)
  have n1: "\<not> isCopy pf ?m H"
    using notcopy fresh(1) by (simp add: isCopy_def copy_word_at)
  show ?thesis
    using l2 l1 c2 c1 n1 copy_isCopy [OF tag] by (simp add: copy_word_at copy_byte_at)
qed

text \<open>The array in flash, copied to \<open>0x3FFF0020\<close> in RAM.\<close>

theorem copy_semantics_witness:
  "canonical (target True) ram 0x40201000 \<and> copyBit (target True) \<noteq> 0 \<and>
   word_at ram (empty_obj (target True)) = 0 \<and>
   0x3FFF0020 \<noteq> (0x40201000::addr) \<and> 0x3FFF0020 \<noteq> empty_obj (target True) \<and>
   ObjectBase_length (target True) (Object_copy (target True) ram 0x3FFF0020 0x40201000)
     0x3FFF0020 = Inr 20 \<and>
   ObjectBase_length (target True) (Object_copy (target True) ram 0x3FFF0020 0x40201000)
     0x40201000 = Inr 20 \<and>
   ObjectBase_content (target True) (Object_copy (target True) ram 0x3FFF0020 0x40201000)
     0x3FFF0020 = Inr image_bytes \<and>
   ObjectBase_content (target True) (Object_copy (target True) ram 0x3FFF0020 0x40201000)
     0x40201000 = Inr image_bytes \<and>
   isCopy (target True) (Object_copy (target True) ram 0x3FFF0020 0x40201000) 0x3FFF0020 \<and>
   \<not> isCopy (target True) (Object_copy (target True) ram 0x3FFF0020 0x40201000) 0x40201000 \<and>
   word_at (Object_copy (target True) ram 0x3FFF0020 0x40201000) 0x3FFF0020 = 0xC0201000"
proof -
  have can: "canonical (target True) ram 0x40201000"
    by (simp add: canonical_def isCopy_def target_simps ram_word_at)
  have tag: "copyBit (target True) \<noteq> 0"
    by (simp add: target_simps)
  have emp: "word_at ram (empty_obj (target True)) = 0"
    by (simp add: target_simps ram_word_at)
  have f1: "0x3FFF0020 \<noteq> (0x40201000::addr)"
    by simp
  have f2: "0x3FFF0020 \<noteq> empty_obj (target True)"
    by (simp add: target_simps)
  have len: "word_at ram 0x40201000 = 20"
    by (simp add: ram_word_at)
  have bytes: "load_bytes (byte_at ram) (getObjectData 0x40201000) 20 = image_bytes"
    using image_content by (simp add: stored_bytes_def getObjectLength_def len)
  have tagged: "(0x40201000::u32) OR copyBit (target True) = 0xC0201000"
    by (simp add: target_simps)
  show ?thesis
    using copy_semantics [OF can tag emp f1 f2] can tag emp f2
    by (simp add: bytes len tagged)
qed

section \<open>The size of a FlashString\<close>

lemma and_not_mask_2: "(x::u32) AND NOT (mask 2) = push_bit 2 (drop_bit 2 x)"
proof (rule bit_word_eqI)
  fix n
  assume "n < LENGTH(32)"
  have "2 \<le> n \<Longrightarrow> Suc (Suc (n - 2)) = n"
    by simp
  then show "bit (x AND NOT (mask 2)) n = bit (push_bit 2 (drop_bit 2 x)) n"
    by (auto simp add: bit_simps)
qed

lemma not_3: "NOT (3::u32) = NOT (mask 2)"
  by (simp add: mask_eq_exp_minus_1)

lemma unat_and_not_3: "unat ((x::u32) AND NOT 3) = unat x div 4 * 4"
proof -
  have "unat (x div 4) = unat x div 4"
    by (simp add: unat_div)
  moreover have "unat x div 4 * 4 < 2 ^ 32"
    using unsigned_less [of x, where 'a = nat] by simp
  ultimately have "unat (x div 4 * 4) = unat x div 4 * 4"
    by (simp add: unat_word_ariths)
  moreover have "x AND NOT 3 = x div 4 * 4"
    by (simp only: not_3 and_not_mask_2) (simp add: push_bit_eq_mult drop_bit_eq_div)
  ultimately show ?thesis
    by (simp only:)
qed


lemma ALIGNUP_round:
  assumes "unat n + 3 < 2 ^ 32"
  shows "unat (ALIGNUP n) = (unat n + 3) div 4 * 4"
proof -
  from assms have "unat (n + 3) = unat n + 3"
    by (simp add: unat_word_ariths)
  then show ?thesis
    by (simp only: ALIGNUP_def unat_and_not_3)
qed

lemma size_round:
  assumes "unat (FlashString_length m s) + 4 < 2 ^ 32"
  shows "unat (FlashString_size m s) = (unat (FlashString_length m s) + 4) div 4 * 4"
proof -
  from assms have "unat (FlashString_length m s + 1) = unat (FlashString_length m s) + 1"
    by (simp add: unat_word_ariths)
  moreover from this assms have "unat (FlashString_length m s + 1) + 3 < 2 ^ 32"
    by simp
  ultimately show ?thesis
    by (simp add: FlashString_size_def FlashString_length_def ALIGNUP_round)
qed

lemma LOAD_FSTR_fits:
  assumes "unat (FlashString_length m s) < unat (FlashString_size m s)"
  shows "LOAD_FSTR m s junk =
     Some (FlashString_content m s @
           0 # map junk [unat (FlashString_length m s) + 1 ..< unat (FlashString_size m s)])"
proof -
  let ?L = "unat (FlashString_length m s)" and ?S = "unat (FlashString_size m s)"
  let ?c = "FlashString_content m s"
  have lc: "length ?c = ?L"
    by (simp add: FlashString_content_def length_load_bytes)
  have "[?L..<?S] = ?L # [?L + 1 ..< ?S]"
    using assms by (simp add: upt_conv_Cons)
  then have "drop ?L (map junk [0..<?S]) = junk ?L # map junk [?L + 1 ..< ?S]"
    by (simp add: drop_map)
  then have "(?c @ drop ?L (map junk [0..<?S]))[?L := 0] = ?c @ 0 # map junk [?L + 1 ..< ?S]"
    using lc by (simp add: list_update_append)
  with assms lc show ?thesis
    by (simp add: LOAD_FSTR_def Let_def memcpy_P_def store_buf_def FlashString_content_def
        length_load_bytes)
qed

text \<open>
  C10, as the code has it. For a \<open>FlashString\<close> whose \<open>length() + 4\<close> does not overflow
  32 bits, \<open>size()\<close> is \<open>ALIGNUP(length() + 1)\<close>, the smallest multiple of 4 that is at
  least \<open>length() + 1\<close>; so a buffer of \<open>size()\<close> bytes has room for the \<open>length()\<close> data
  bytes and a NUL terminator, and \<open>LOAD_FSTR\<close> stays inside its array: it leaves the
  data, the NUL at index \<open>length()\<close>, and the rest of the array as it was.
\<close>

theorem size_room:
  assumes "unat (FlashString_length m s) + 4 < 2 ^ 32"
  shows "FlashString_size m s = ALIGNUP (FlashString_length m s + 1) \<and>
     4 dvd unat (FlashString_size m s) \<and>
     unat (FlashString_length m s) + 1 \<le> unat (FlashString_size m s) \<and>
     (\<forall>k. 4 dvd k \<and> unat (FlashString_length m s) + 1 \<le> k
          \<longrightarrow> unat (FlashString_size m s) \<le> k) \<and>
     LOAD_FSTR m s junk =
       Some (FlashString_content m s @
             0 # map junk [unat (FlashString_length m s) + 1 ..< unat (FlashString_size m s)])"
proof -
  let ?L = "unat (FlashString_length m s)"
  have sz: "unat (FlashString_size m s) = (?L + 4) div 4 * 4"
    using assms by (rule size_round)
  have a: "4 dvd unat (FlashString_size m s)"
    by (simp add: sz)
  have b: "?L + 1 \<le> unat (FlashString_size m s)"
    unfolding sz by presburger
  have c: "unat (FlashString_size m s) \<le> k" if "4 dvd k" and "?L + 1 \<le> k" for k
    using that unfolding sz by presburger
  have d: "LOAD_FSTR m s junk =
       Some (FlashString_content m s @
             0 # map junk [?L + 1 ..< unat (FlashString_size m s)])"
    using b by (intro LOAD_FSTR_fits) simp
  show ?thesis
    using a b c d by (simp add: FlashString_size_def FlashString_length_def)
qed

text \<open>"hello": length 5, size 8.\<close>

theorem size_room_witness:
  "unat (FlashString_length ram 0x40203000) + 4 < 2 ^ 32 \<and>
   FlashString_length ram 0x40203000 = 5 \<and>
   FlashString_size ram 0x40203000 = 8 \<and>
   LOAD_FSTR ram 0x40203000 (\<lambda>i. 7) = Some [104, 101, 108, 108, 111, 0, 7, 7]"
proof -
  have len: "FlashString_length ram 0x40203000 = 5"
    by (simp add: FlashString_length_def ram_word_at)
  have ok: "unat (FlashString_length ram 0x40203000) + 4 < 2 ^ 32"
    by (simp add: len)
  have sz: "FlashString_size ram 0x40203000 = 8"
    by (simp add: FlashString_size_def ALIGNUP_def ram_word_at)
  show ?thesis
    using size_room [OF ok, where junk = "\<lambda>i. 7"] ok
    by (simp add: len sz hello_content hello_bytes_def upt_rec)
qed

text \<open>
  Against C10 as stated: for the length \<open>0xFFFFFFFE\<close>, \<open>length() + 1\<close> does not
  overflow, yet \<open>size()\<close> is 0 and \<open>LOAD_FSTR\<close> writes outside its array. (No 32-bit value
  is a multiple of 4 and at least \<open>0xFFFFFFFF\<close>.)
\<close>

theorem size_wraps:
  "FlashString_length huge_string 0 = 0xFFFFFFFE \<and>
   unat (FlashString_length huge_string 0) + 1 < 2 ^ 32 \<and>
   FlashString_size huge_string 0 = 0 \<and>
   LOAD_FSTR huge_string 0 (\<lambda>i. 0) = None"
  by (simp add: FlashString_length_def FlashString_size_def ALIGNUP_def LOAD_FSTR_def
      huge_string_def)

section \<open>Reading elements\<close>

lemma min_div_nat: "min (a::nat) b div s = min (a div s) (b div s)"
proof (cases "a \<le> b")
  case True
  then have "a div s \<le> b div s"
    by (rule div_le_mono)
  with True show ?thesis
    by (simp add: min_absorb1)
next
  case False
  then have "b \<le> a"
    by simp
  then have "b div s \<le> a div s"
    by (rule div_le_mono)
  with \<open>b \<le> a\<close> show ?thesis
    by (simp add: min_absorb2)
qed

lemma diff_mult_div_nat:
  fixes b i s :: nat
  assumes "0 < s" and "i * s \<le> b"
  shows "(b - i * s) div s = b div s - i"
proof -
  have "(b - i * s + i * s) div s = i + (b - i * s) div s"
    using assms(1) by (simp only: div_mult_self1) 
  with assms(2) show ?thesis
    by simp
qed

lemma clamp_elements:
  fixes B I C S :: nat
  assumes "0 < S"
  shows "(if B \<le> I * S then 0 else min (B - I * S) (C * S)) div S = min C (B div S - I)"
proof (cases "B \<le> I * S")
  case True
  then have "B div S \<le> I * S div S"
    by (rule div_le_mono)
  with assms True show ?thesis
    by simp
next
  case False
  then have "I * S \<le> B"
    by simp
  with assms have "(B - I * S) div S = B div S - I"
    by (rule diff_mult_div_nat)
  with assms False show ?thesis
    by (simp add: min_div_nat min.commute)
qed

lemma clamp_to_end:
  fixes B I C S :: nat
  assumes "0 < S" and "I < B div S" and "B div S < I + C"
  shows "I * S < B" and "B - I * S \<le> C * S"
proof -
  have d: "B div S * S \<le> B"
    by simp
  from assms(2) have "Suc I \<le> B div S"
    by simp
  then have "Suc I * S \<le> B div S * S"
    by (rule mult_le_mono1)
  then have "Suc I * S \<le> B"
    using d by (rule order_trans)
  then have "I * S + S \<le> B"
    by (simp add: add.commute)
  with assms(1) show "I * S < B"
    by linarith
  have "B < Suc (B div S) * S"
    using assms(1) by (metis dividend_less_div_times mult.commute mult_Suc add.commute)
  moreover from assms(3) have "Suc (B div S) \<le> I + C"
    by simp
  then have "Suc (B div S) * S \<le> (I + C) * S"
    by (rule mult_le_mono1)
  ultimately have "B < I * S + C * S"
    by (simp add: add_mult_distrib)
  then show "B - I * S \<le> C * S"
    by simp
qed

lemma ObjectBase_read_eq:
  assumes res: "getObjectPtr pf m h = Inr p"
  shows "ObjectBase_read pf m h offset buffer count =
     Inr (if getObjectLength m p \<le> offset then (0, buffer)
          else (min (getObjectLength m p - offset) count,
                store_buf buffer
                  (take (unat (min (getObjectLength m p - offset) count))
                     (drop (unat offset) (stored_bytes m p)))))"
proof (cases "getObjectLength m p \<le> offset")
  case True
  with res show ?thesis
    by (simp add: ObjectBase_read_def)
next
  case False
  then have lt: "offset < getObjectLength m p"
    by simp
  have "load_bytes (byte_at m) (getObjectData p + offset)
          (unat (min (getObjectLength m p - offset) count)) =
        take (unat (min (getObjectLength m p - offset) count))
          (drop (unat offset) (stored_bytes m p))"
    unfolding stored_bytes_def
    by (rule load_bytes_slice) (rule clamp_fits [OF lt])
  with res False show ?thesis
    by (simp add: ObjectBase_read_def memcpy_P_def Let_def)
qed

lemma unat_scaled:
  fixes i s :: u32
  assumes "unat i * unat s < 2 ^ 32"
  shows "unat (i * s) = unat i * unat s"
  using assms by (simp add: unat_word_ariths)

lemma unat_min: "unat (min (a::u32) b) = min (unat a) (unat b)"
  by (simp add: min_def word_le_nat_alt)

lemma unat_clamped:
  fixes blen off cnt :: u32
  shows "unat (if blen \<le> off then 0 else min (blen - off) cnt) =
     (if unat blen \<le> unat off then 0 else min (unat blen - unat off) (unat cnt))"
  by (simp add: unat_min unat_sub word_le_nat_alt)

lemma Object_read_count:
  assumes res: "getObjectPtr pf m h = Inr p"
    and sz: "sizeof_elem et \<noteq> 0"
    and io: "unat index * unat (sizeof_elem et) < 2 ^ 32"
    and co: "unat count * unat (sizeof_elem et) < 2 ^ 32"
  shows "\<exists>b. Object_read pf m et h index buffer count =
     Inr (if getObjectLength m p div sizeof_elem et \<le> index then 0
          else min count (getObjectLength m p div sizeof_elem et - index), b)"
proof -
  let ?sz = "sizeof_elem et" and ?blen = "getObjectLength m p"
  let ?off = "index * ?sz" and ?cnt = "count * ?sz"
  let ?n = "if ?blen \<le> ?off then 0 else min (?blen - ?off) ?cnt"
  let ?r = "if ?blen div ?sz \<le> index then 0 else min count (?blen div ?sz - index)"
  from sz have S: "0 < unat ?sz"
    by (simp add: unat_gt_0)
  have "unat (?n div ?sz) = unat ?n div unat ?sz"
    by (rule unat_div)
  also have "unat ?n =
      (if unat ?blen \<le> unat index * unat ?sz then 0
       else min (unat ?blen - unat index * unat ?sz) (unat count * unat ?sz))"
    by (simp only: unat_clamped unat_scaled [OF io] unat_scaled [OF co])
  also have "\<dots> div unat ?sz = min (unat count) (unat ?blen div unat ?sz - unat index)"
    using S by (rule clamp_elements)
  also have "\<dots> = unat ?r"
    by (simp add: unat_min unat_sub unat_div word_le_nat_alt)
  finally have "?n div ?sz = ?r"
    by (simp only: word_unat_eq_iff)
  then show ?thesis
    by (auto simp add: Object_read_def Let_def ObjectBase_read_eq [OF res])
qed

lemma Object_read_to_end:
  assumes res: "getObjectPtr pf m h = Inr p"
    and sz: "sizeof_elem et \<noteq> 0"
    and io: "unat index * unat (sizeof_elem et) < 2 ^ 32"
    and co: "unat count * unat (sizeof_elem et) < 2 ^ 32"
    and lt: "index < getObjectLength m p div sizeof_elem et"
    and over: "unat (getObjectLength m p div sizeof_elem et) < unat index + unat count"
  shows "Object_read pf m et h index buffer count =
     Inr (getObjectLength m p div sizeof_elem et - index,
          store_buf buffer (drop (unat index * unat (sizeof_elem et)) (stored_bytes m p)))"
proof -
  let ?sz = "sizeof_elem et" and ?blen = "getObjectLength m p"
  let ?off = "index * ?sz" and ?cnt = "count * ?sz"
  from sz have S: "0 < unat ?sz"
    by (simp add: unat_gt_0)
  from lt have I: "unat index < unat ?blen div unat ?sz"
    by (simp add: word_less_nat_alt unat_div)
  from over have O: "unat ?blen div unat ?sz < unat index + unat count"
    by (simp add: unat_div)
  note e = clamp_to_end [OF S I O]
  have off: "unat ?off = unat index * unat ?sz" and cnt: "unat ?cnt = unat count * unat ?sz"
    by (rule unat_scaled [OF io], rule unat_scaled [OF co])
  from e(1) have below: "?off < ?blen"
    by (simp add: word_less_nat_alt off)
  then have sub: "unat (?blen - ?off) = unat ?blen - unat index * unat ?sz"
    by (simp add: unat_sub off word_le_nat_alt word_less_nat_alt)
  with e(2) have "?blen - ?off \<le> ?cnt"
    by (simp add: word_le_nat_alt cnt)
  then have n: "min (?blen - ?off) ?cnt = ?blen - ?off"
    by (simp add: min_absorb1)
  have whole: "take (unat (?blen - ?off)) (drop (unat ?off) (stored_bytes m p)) =
      drop (unat index * unat ?sz) (stored_bytes m p)"
    by (simp add: sub off stored_bytes_def length_load_bytes)
  from lt have "\<not> ?blen div ?sz \<le> index"
    by simp
  then have "\<exists>b. Object_read pf m et h index buffer count =
      Inr (min count (?blen div ?sz - index), b)"
    using Object_read_count [OF res sz io co, of buffer] by simp
  then obtain b where r: "Object_read pf m et h index buffer count =
      Inr (min count (?blen div ?sz - index), b)" ..
  have "unat (min count (?blen div ?sz - index)) = unat (?blen div ?sz - index)"
    using lt over by (simp add: unat_min unat_sub word_le_nat_alt word_less_nat_alt)
  then have m: "min count (?blen div ?sz - index) = ?blen div ?sz - index"
    by (simp only: word_unat_eq_iff)
  from below have "\<not> ?blen \<le> ?off"
    by simp
  then have "Object_read pf m et h index buffer count =
      Inr ((?blen - ?off) div ?sz,
           store_buf buffer (drop (unat index * unat ?sz) (stored_bytes m p)))"
    by (simp add: Object_read_def Let_def ObjectBase_read_eq [OF res] n whole)
  with r m show ?thesis
    by simp
qed


text \<open>
  Where neither product overflows 32 bits (and the handle's resolution returns), the
  element-granular read does what its contract says: 0 for \<open>index >= length()\<close>, and
  for \<open>index < length()\<close> with \<open>index + count > length()\<close> the remaining
  \<open>length() - index\<close> elements, copied from element \<open>index\<close> to the end of the data.
\<close>

lemma Object_read_in_range:
  assumes res: "getObjectPtr pf m h = Inr p"
    and sz: "sizeof_elem et \<noteq> 0"
    and io: "unat index * unat (sizeof_elem et) < 2 ^ 32"
    and co: "unat count * unat (sizeof_elem et) < 2 ^ 32"
  shows
    "Object_length pf m et h = Inr (getObjectLength m p div sizeof_elem et) \<and>
     (getObjectLength m p div sizeof_elem et \<le> index \<longrightarrow>
        (\<exists>b. Object_read pf m et h index buffer count = Inr (0, b))) \<and>
     (index < getObjectLength m p div sizeof_elem et \<and>
      unat (getObjectLength m p div sizeof_elem et) < unat index + unat count \<longrightarrow>
        Object_read pf m et h index buffer count =
          Inr (getObjectLength m p div sizeof_elem et - index,
               store_buf buffer
                 (drop (unat index * unat (sizeof_elem et)) (stored_bytes m p))))"
proof -
  have b: "Object_length pf m et h = Inr (getObjectLength m p div sizeof_elem et)"
    using res by (simp add: Object_length_def ObjectBase_length_def)
  have c: "\<exists>b. Object_read pf m et h index buffer count = Inr (0, b)"
    if "getObjectLength m p div sizeof_elem et \<le> index"
    using Object_read_count [OF res sz io co, of buffer] that by simp
  have d: "Object_read pf m et h index buffer count =
          Inr (getObjectLength m p div sizeof_elem et - index,
               store_buf buffer
                 (drop (unat index * unat (sizeof_elem et)) (stored_bytes m p)))"
    if "index < getObjectLength m p div sizeof_elem et"
      and "unat (getObjectLength m p div sizeof_elem et) < unat index + unat count"
    using res sz io co that by (rule Object_read_to_end)
  from b c d show ?thesis
    by blast
qed

text \<open>
  C6. The element-granular read passes \<open>index\<close> and \<open>count\<close>, each multiplied by the
  element size, to the handle's byte read and divides the byte count it returns by the
  element size; the claim concludes that \<open>read(index, buf, count)\<close> returns 0 when
  \<open>index >= length()\<close> and \<open>length() - index\<close> when \<open>index + count > length()\<close>. The two
  products are 32-bit and unchecked. On the array of five 4-byte elements
  \<open>read(0x40000000, buf, 1)\<close> has \<open>index >= length()\<close>, yet \<open>index * 4\<close> wraps to 0 and the
  call returns 1 and copies the first element, where \<open>valueAt\<close>, which compares the index
  with \<open>length()\<close> before it scales it, gives the zero element for the same index; and
  \<open>read(0, buf, 0x40000000)\<close> has \<open>index + count > length()\<close>, yet \<open>count * 4\<close> wraps to 0
  and the call returns 0 and copies nothing, not the 5 elements that remain.
\<close>

theorem typed_read_wraps:
  "Object_length (target True) ram uint32_elem 0x40201000 = Inr 5 \<and>
   (5::u32) \<le> 0x40000000 \<and>
   Object_read (target True) ram uint32_elem 0x40201000 0x40000000 [0, 0, 0, 0] 1 =
     Inr (1, [10, 0, 0, 0]) \<and>
   valueAt (target True) ram uint32_elem 0x40201000 0x40000000 = Inr 0 \<and>
   Object_read (target True) ram uint32_elem 0x40201000 0 [0, 0, 0, 0] 0x40000000 =
     Inr (0, [0, 0, 0, 0])"
  by code_simp

end
